theory Spec2Isabelle
  imports Main "HOL-Library.AList"
begin

section \<open>The poll engine of AgileMate\<close>

text \<open>
  The development embeds the poll file of the bot (the \<^verbatim>\<open>vote\<close>, \<^verbatim>\<open>endpoll\<close> commands, the
  button collector and \<^verbatim>\<open>endPoll\<close>). A JavaScript \<^verbatim>\<open>Map\<close> is an association list in
  insertion order (\<^verbatim>\<open>set\<close> on a present key replaces the value in place, on an absent key
  appends; \<^verbatim>\<open>delete\<close> removes the key; \<^verbatim>\<open>size\<close> is the length), a \<^verbatim>\<open>Set\<close> a list without
  duplicates. The chat platform is outside the model: what the code sends to it is
  appended to a trace, and what it answers (the id of the message a reply creates, the
  member list) comes with the request. A call of the platform is taken to resolve: a
  message that the platform refuses, or a connection that fails, rejects the \<^verbatim>\<open>await\<close> and
  the handler ends there, which the model leaves out. What the code and its library
  throw before anything is sent is in the model: the checks of the message builders, the
  read of a property of \<^verbatim>\<open>undefined\<close>, the call with more arguments than the engine takes.
  The percentage that \<^verbatim>\<open>toFixed\<close> renders is left out, and so is the \<^verbatim>\<open>listpolls\<close> command,
  which only reads the store.

  The handlers are asynchronous: at an \<^verbatim>\<open>await\<close> a handler is suspended and others run.
  Each handler is given in the parts between its \<^verbatim>\<open>await\<close>s, and as the composition of
  these parts, which is the handler when nothing else runs in between.
\<close>

subsection \<open>JavaScript numbers and the array of counts\<close>

text \<open>
  The numbers that occur: the integers, \<^verbatim>\<open>NaN\<close> (what \<^verbatim>\<open>parseInt\<close> returns for a button id
  without digits, and what \<^verbatim>\<open>undefined++\<close> stores) and \<^verbatim>\<open>-Infinity\<close> (\<^verbatim>\<open>Math.max\<close> of no
  argument). An array element is \<open>None\<close> where the array has a hole, which reads as
  \<^verbatim>\<open>undefined\<close>.
\<close>

datatype jsnum = NaN | NegInfinity | Num int

fun incr :: "jsnum option \<Rightarrow> jsnum" where
  "incr None = NaN"
| "incr (Some NaN) = NaN"
| "incr (Some NegInfinity) = NegInfinity"
| "incr (Some (Num n)) = Num (n + 1)"

definition cell :: "jsnum option list \<Rightarrow> nat \<Rightarrow> jsnum option" where
  "cell cs i = (if i < length cs then cs ! i else None)"

text \<open>
  \<^verbatim>\<open>voteCounts[optionIndex]++\<close>. An integer from 0 to \<open>2^32 - 2\<close> is an array index: inside
  the array the element is incremented, past its end the array grows up to that index,
  with holes between, and the new element is \<^verbatim>\<open>undefined + 1\<close>. Any other number names an
  ordinary property of the array object, which no later read of the elements sees.
\<close>

definition bump :: "jsnum option list \<Rightarrow> jsnum \<Rightarrow> jsnum option list" where
  "bump cs optionIndex =
     (case optionIndex of
        Num k \<Rightarrow>
          if 0 \<le> k \<and> k < 4294967295 then
            (if nat k < length cs then cs[nat k := Some (incr (cs ! nat k))]
             else cs @ replicate (nat k - length cs) None @ [Some NaN])
          else cs
      | _ \<Rightarrow> cs)"

fun toNumber :: "jsnum option \<Rightarrow> jsnum" where
  "toNumber None = NaN"
| "toNumber (Some x) = x"

fun max2 :: "jsnum \<Rightarrow> jsnum \<Rightarrow> jsnum" where
  "max2 NaN y = NaN"
| "max2 x NaN = NaN"
| "max2 NegInfinity y = y"
| "max2 x NegInfinity = x"
| "max2 (Num a) (Num b) = Num (max a b)"

text \<open>
  What is thrown: a \<^verbatim>\<open>TypeError\<close> by the read of a property of \<^verbatim>\<open>undefined\<close>, a
  \<^verbatim>\<open>RangeError\<close> by a call with too many arguments, and the error of the message builders
  for a text they refuse.
\<close>

datatype error = TypeError | RangeError | BuilderError

text \<open>
  \<^verbatim>\<open>Math.max(...voteCounts)\<close>: every element is an argument, a hole as \<^verbatim>\<open>undefined\<close>. An
  engine takes only so many arguments in one call and throws a \<^verbatim>\<open>RangeError\<close> for more.
  How many it takes is the engine's own matter, and a parameter here.
\<close>

definition Math_max :: "nat \<Rightarrow> jsnum option list \<Rightarrow> error + jsnum" where
  "Math_max limit cs =
     (if limit < length cs then Inl RangeError
      else Inr (foldl max2 NegInfinity (map toNumber cs)))"

text \<open>\<^verbatim>\<open>voteCounts[index] === maxVotes\<close> and \<^verbatim>\<open>maxVotes > 0\<close>.\<close>

fun strictEq :: "jsnum option \<Rightarrow> jsnum \<Rightarrow> bool" where
  "strictEq None y = False"
| "strictEq (Some NaN) y = False"
| "strictEq (Some x) NaN = False"
| "strictEq (Some x) y = (x = y)"

fun positive :: "jsnum \<Rightarrow> bool" where
  "positive (Num n) = (0 < n)"
| "positive _ = False"

subsection \<open>Sessions and results\<close>

record pollData =
  message :: string
  timeout :: nat
  options :: "string list"
  votes :: "(string \<times> jsnum) list"
  eligibleVoters :: "string list"

datatype verdict =
    Winner string jsnum
  | TieBetween "string list" jsnum
  | NoVotesCast

record pollResults =
  counts :: "(string \<times> jsnum option) list"
  outcome :: verdict
  participation :: "(nat \<times> nat) option"

text \<open>Lines 691 to 695 of \<^verbatim>\<open>endPoll\<close>: the array of counts.\<close>

definition voteCounts :: "string list \<Rightarrow> (string \<times> jsnum) list \<Rightarrow> jsnum option list" where
  "voteCounts opts vs = foldl bump (replicate (length opts) (Some (Num 0))) (map snd vs)"

text \<open>
  Lines 697 to 721: the result message, as its parts. \<open>counts\<close> are the lines
  \<^verbatim>\<open>option: n votes\<close>, \<open>outcome\<close> the winner line, \<open>participation\<close> the pair
  \<^verbatim>\<open>votes.size/eligibleVoters.size\<close>, absent when no eligible voter is known. The call of
  \<^verbatim>\<open>Math.max\<close> at line 704 is the one place that may throw.
\<close>

definition indexed :: "'a list \<Rightarrow> ('a \<times> nat) list" where
  "indexed xs = zip xs [0..<length xs]"

definition compileResults :: "nat \<Rightarrow> pollData \<Rightarrow> error + pollResults" where
  "compileResults limit pollData =
     (let vc = voteCounts (options pollData) (votes pollData)
      in case Math_max limit vc of
           Inl e \<Rightarrow> Inl e
         | Inr maxVotes \<Rightarrow>
             (let winners = map fst (filter (\<lambda>(opt, index). strictEq (cell vc index) maxVotes)
                              (indexed (options pollData)))
              in Inr \<lparr> counts = map (\<lambda>(opt, index). (opt, cell vc index)) (indexed (options pollData)),
                       outcome =
                         (if positive maxVotes then
                            (if length winners = 1 then Winner (winners ! 0) maxVotes
                             else TieBetween winners maxVotes)
                          else NoVotesCast),
                       participation =
                         (if length (eligibleVoters pollData) > 0
                          then Some (length (votes pollData), length (eligibleVoters pollData))
                          else None) \<rparr>))"

subsection \<open>The store, the timers and the trace\<close>

text \<open>
  \<^verbatim>\<open>activePolls\<close> maps a guild to a \<^verbatim>\<open>Map\<close> object, and the handlers hold such objects
  by reference (\<^verbatim>\<open>serverPolls\<close> in the collector's closure and in \<^verbatim>\<open>endPoll\<close>), so the
  \<^verbatim>\<open>Map\<close> objects live in a heap and \<^verbatim>\<open>activePolls\<close> holds their addresses. An armed
  timer keeps the arguments its callback passes to \<^verbatim>\<open>endPoll\<close>; a live collector keeps
  the variables its handler closes over. \<open>sent\<close> is what the code has sent to the
  platform so far, \<open>unhandled\<close> the errors of the handlers whose promise was rejected
  with nobody to handle it (what the runtime does about them, a warning or the end of the
  process, is its own matter), and \<open>maxArguments\<close> the number of arguments the engine
  takes in one call.
\<close>

record timer =
  delay :: int
  t_message :: string
  t_pollId :: string
  t_guildId :: string

record collector =
  c_serverPolls :: nat
  c_pollId :: string
  c_guildId :: string
  c_message :: string
  c_options :: "string list"

datatype effect =
    Reply_TooFewOptions
  | Reply_TooManyOptions
  | Reply_NotTextChannel
  | PollMessage string string "string list"
  | FollowUp_Created string nat
  | Reply_NoPermission string
  | Reply_Recorded string "string option"
  | MessageEdit_Ended string
  | MessageReply_Results string pollResults
  | Reply_NoActivePolls
  | Reply_ActivePolls "(string \<times> nat \<times> nat) list"
  | Reply_NoPollFound string
  | Reply_EndedManually string
  | Reply_CommandError

record world =
  activePolls :: "(string \<times> nat) list"
  heap :: "(nat \<times> (string \<times> pollData) list) list"
  timers :: "(nat \<times> timer) list"
  collectors :: "(string \<times> collector) list"
  nextMap :: nat
  nextTimer :: nat
  sent :: "effect list"
  unhandled :: "error list"
  maxArguments :: nat

text \<open>The program as it starts, on an engine that takes \<open>limit\<close> arguments.\<close>

definition init :: "nat \<Rightarrow> world" where
  "init limit = \<lparr> activePolls = [], heap = [], timers = [], collectors = [],
                  nextMap = 0, nextTimer = 0, sent = [], unhandled = [],
                  maxArguments = limit \<rparr>"

definition mapAt :: "world \<Rightarrow> nat \<Rightarrow> (string \<times> pollData) list" where
  "mapAt w a = (case map_of (heap w) a of Some m \<Rightarrow> m | None \<Rightarrow> [])"

definition putMap :: "nat \<Rightarrow> (string \<times> pollData) list \<Rightarrow> world \<Rightarrow> world" where
  "putMap a m w = w\<lparr>heap := AList.update a m (heap w)\<rparr>"

definition send :: "effect \<Rightarrow> world \<Rightarrow> world" where
  "send e w = w\<lparr>sent := sent w @ [e]\<rparr>"

definition clearTimeout :: "nat \<Rightarrow> world \<Rightarrow> world" where
  "clearTimeout h w = w\<lparr>timers := AList.delete h (timers w)\<rparr>"

definition stopCollector :: "string \<Rightarrow> world \<Rightarrow> world" where
  "stopCollector m w = w\<lparr>collectors := AList.delete m (collectors w)\<rparr>"

text \<open>
  A handler returns its state, or throws: \<open>Inl (e, w)\<close> is the error with the state at
  the throw. The timer callback and the collector's listener are called by nobody who
  handles a rejection: the state stays as it was at the throw, and the error is noted
  (\<open>settle\<close>). A command is called by the dispatcher in \<^verbatim>\<open>index.ts\<close> (lines 103 to 112),
  which catches the error and answers that there was an error executing the command, as a
  reply or, when the command had replied already, as a follow-up (\<open>dispatch\<close>).
\<close>

definition settle :: "(error \<times> world) + world \<Rightarrow> world" where
  "settle r = (case r of Inr w \<Rightarrow> w | Inl (e, w) \<Rightarrow> w\<lparr>unhandled := unhandled w @ [e]\<rparr>)"

definition dispatch :: "(error \<times> world) + world \<Rightarrow> world" where
  "dispatch r = (case r of Inr w \<Rightarrow> w | Inl (e, w) \<Rightarrow> send Reply_CommandError w)"

subsection \<open>\<^verbatim>\<open>endPoll\<close>\<close>

text \<open>
  \<^verbatim>\<open>endPoll\<close> awaits the platform twice, so it runs in three parts, and other handlers
  may run between them: the guard, the results and the edit of the poll's message
  (lines 685 to 728), the reply that publishes the results (line 731), and the removal of
  the poll, with the guild's entry when its map is left empty (lines 733 to 739). The
  results and \<^verbatim>\<open>serverPolls\<close> are local variables that the later parts still hold.
  The first part returns \<open>None\<close> when the guard at lines 685 and 686 returns, and throws
  when \<^verbatim>\<open>Math.max\<close> does, before anything is sent or removed.
\<close>

definition endPoll_begin ::
    "string \<Rightarrow> string \<Rightarrow> string \<Rightarrow> world \<Rightarrow> error + (nat \<times> pollResults \<times> world) option" where
  "endPoll_begin msg pollId guildId w =
     (case map_of (activePolls w) guildId of
        None \<Rightarrow> Inr None
      | Some serverPolls \<Rightarrow>
          (case map_of (mapAt w serverPolls) pollId of
             None \<Rightarrow> Inr None
           | Some pollData \<Rightarrow>
               (case compileResults (maxArguments w) pollData of
                  Inl e \<Rightarrow> Inl e
                | Inr results \<Rightarrow>
                    Inr (Some (serverPolls, results, send (MessageEdit_Ended msg) w)))))"

definition endPoll_publish :: "string \<Rightarrow> pollResults \<Rightarrow> world \<Rightarrow> world" where
  "endPoll_publish msg results w = send (MessageReply_Results msg results) w"

definition endPoll_finish :: "nat \<Rightarrow> string \<Rightarrow> string \<Rightarrow> world \<Rightarrow> world" where
  "endPoll_finish serverPolls pollId guildId w =
     (let w1 = putMap serverPolls (AList.delete pollId (mapAt w serverPolls)) w
      in if length (mapAt w1 serverPolls) = 0
         then w1\<lparr>activePolls := AList.delete guildId (activePolls w1)\<rparr>
         else w1)"

text \<open>The three parts in one run, when nothing else is handled in between.\<close>

definition endPoll :: "string \<Rightarrow> string \<Rightarrow> string \<Rightarrow> world \<Rightarrow> (error \<times> world) + world" where
  "endPoll msg pollId guildId w =
     (case endPoll_begin msg pollId guildId w of
        Inl e \<Rightarrow> Inl (e, w)
      | Inr None \<Rightarrow> Inr w
      | Inr (Some (serverPolls, results, w1)) \<Rightarrow>
          Inr (endPoll_finish serverPolls pollId guildId (endPoll_publish msg results w1)))"

text \<open>The callback of the deadline timer (lines 623 to 625). A cleared timer, or one that
  has fired, is no longer armed and nothing runs.\<close>

definition timerFires :: "nat \<Rightarrow> world \<Rightarrow> world" where
  "timerFires h w =
     (case map_of (timers w) h of
        None \<Rightarrow> w
      | Some t \<Rightarrow>
          settle (endPoll (t_message t) (t_pollId t) (t_guildId t)
                    (w\<lparr>timers := AList.delete h (timers w)\<rparr>)))"

subsection \<open>The \<^verbatim>\<open>vote\<close> command\<close>

record member =
  memberId :: string
  isBot :: bool
  canView :: bool

text \<open>
  The request: the question, the options as \<^verbatim>\<open>split(',')\<close> and \<^verbatim>\<open>trim\<close> leave them, the
  duration in minutes, the guild, whether the channel is a text channel of a server,
  and the platform's answers: the id of the message the reply creates and the members
  it lists (\<open>None\<close> when the listing fails). An element of a string stands for one code
  unit of the JavaScript string, so that \<open>length\<close> is its \<^verbatim>\<open>length\<close>.
\<close>

record voteCommand =
  v_question :: string
  v_options :: "string list"
  v_duration :: int
  v_guildId :: string
  v_textChannel :: bool
  v_replyId :: string
  v_members :: "member list option"

text \<open>
  Line 542: \<^verbatim>\<open>getInteger\<close> returns the integer of the request as a number, and the
  duration is that number times 60 times 1000, in doubles: the number and each product
  are the nearest double of the exact value, a tie going to the even significand. An
  integer below \<open>2^53\<close> in magnitude is a double, and beyond that \<open>toDouble\<close> keeps the 53
  leading bits. The platform delivers integers of magnitude \<open>2^53\<close> at most, so no
  product is infinite.
\<close>

function bitLength :: "int \<Rightarrow> nat" where
  "bitLength n = (if n \<le> 0 then 0 else Suc (bitLength (n div 2)))"
  by pat_completeness auto

termination
  by (relation "measure nat") auto

declare bitLength.simps [simp del]

definition toDouble :: "int \<Rightarrow> int" where
  "toDouble x =
     (let m = \<bar>x\<bar>
      in if m < 9007199254740992 then x
         else
           (let ulp = 2 ^ (bitLength m - 53);
                q = m div ulp;
                r = m mod ulp;
                q' = (if ulp < 2 * r \<or> (2 * r = ulp \<and> odd q) then q + 1 else q)
            in sgn x * (q' * ulp)))"

definition milliseconds :: "int \<Rightarrow> int" where
  "milliseconds minutes = toDouble (toDouble (toDouble minutes * 60) * 1000)"

text \<open>
  Lines 558 to 562: the embed of the poll. Its description is one line per option,
  \<^verbatim>\<open>1. first\<close>, \<^verbatim>\<open>2. second\<close>, joined by line feeds. The builder of the library checks
  what it is given and throws otherwise: a title of 1 to 256 characters and a
  description of 1 to 4096. The colour, the footer and the buttons (lines 565 to 577) are
  always accepted.
\<close>

fun decimal :: "nat \<Rightarrow> string" where
  "decimal n =
     (if n < 10 then [''0123456789'' ! n]
      else decimal (n div 10) @ [''0123456789'' ! (n mod 10)])"

declare decimal.simps [simp del]

fun joinWith :: "string \<Rightarrow> string list \<Rightarrow> string" where
  "joinWith sep [] = []"
| "joinWith sep [x] = x"
| "joinWith sep (x # y # ys) = x @ sep @ joinWith sep (y # ys)"

definition description :: "string list \<Rightarrow> string" where
  "description opts =
     joinWith [CHR 0x0A] (map (\<lambda>(opt, index). decimal (index + 1) @ ''. '' @ opt) (indexed opts))"

definition setTitle :: "string \<Rightarrow> bool" where
  "setTitle title = (1 \<le> length title \<and> length title \<le> 256)"

definition setDescription :: "string \<Rightarrow> bool" where
  "setDescription desc = (1 \<le> length desc \<and> length desc \<le> 4096)"

definition setAdd :: "'a list \<Rightarrow> 'a \<Rightarrow> 'a list" where
  "setAdd s x = (if x \<in> set s then s else s @ [x])"

definition eligible :: "member list option \<Rightarrow> string list" where
  "eligible f =
     (case f of
        None \<Rightarrow> []
      | Some ms \<Rightarrow> foldl setAdd [] (map memberId (filter (\<lambda>m. \<not> isBot m \<and> canView m) ms)))"

text \<open>
  The command awaits the platform three times: the reply that carries the poll (line
  580), the list of the members (line 600) and the confirmation (line 677). Its first
  part, lines 540 to 584, checks the request and sends the poll: it ends the command
  with an error message (\<open>Returned\<close>), throws in the builder, or goes on (\<open>Replied\<close>).
\<close>

datatype began = Returned world | Replied world

definition execute_begin :: "voteCommand \<Rightarrow> world \<Rightarrow> (error \<times> world) + began" where
  "execute_begin c w =
     (let opts = v_options c
      in if length opts < 2 then Inr (Returned (send Reply_TooFewOptions w))
         else if length opts > 5 then Inr (Returned (send Reply_TooManyOptions w))
         else if \<not> v_textChannel c then Inr (Returned (send Reply_NotTextChannel w))
         else if \<not> setTitle (v_question c) then Inl (BuilderError, w)
         else if \<not> setDescription (description opts) then Inl (BuilderError, w)
         else Inr (Replied (send (PollMessage (v_replyId c) (v_question c) opts) w)))"

text \<open>The second part, lines 586 to 600: the guild's map, created when the guild has
  none.\<close>

definition ensureGuildMap :: "string \<Rightarrow> world \<Rightarrow> world" where
  "ensureGuildMap g w =
     (if map_of (activePolls w) g = None
      then w\<lparr>activePolls := AList.update g (nextMap w) (activePolls w),
             heap := AList.update (nextMap w) [] (heap w),
             nextMap := Suc (nextMap w)\<rparr>
      else w)"

text \<open>Lines 616 to 632: the entry of the poll with its armed timer, and the collector
  on the poll's message.\<close>

definition openPoll :: "voteCommand \<Rightarrow> int \<Rightarrow> string list \<Rightarrow> nat \<Rightarrow> world \<Rightarrow> world" where
  "openPoll c duration voters serverPolls w =
     (let pollId = v_replyId c;
          h = nextTimer w;
          w1 = w\<lparr>timers := AList.update h
                    \<lparr>delay = duration, t_message = v_replyId c, t_pollId = pollId,
                      t_guildId = v_guildId c\<rparr> (timers w),
                  nextTimer := Suc h\<rparr>;
          w2 = putMap serverPolls
                 (AList.update pollId
                    \<lparr>message = v_replyId c, timeout = h, options = v_options c, votes = [],
                      eligibleVoters = voters\<rparr>
                    (mapAt w1 serverPolls)) w1
      in w2\<lparr>collectors := AList.update (v_replyId c)
                \<lparr>c_serverPolls = serverPolls, c_pollId = pollId, c_guildId = v_guildId c,
                  c_message = v_replyId c, c_options = v_options c\<rparr> (collectors w2)\<rparr>)"

text \<open>
  The third part, lines 602 to 677. \<^verbatim>\<open>activePolls.get(guildId)!\<close> is \<^verbatim>\<open>undefined\<close> when
  the guild's entry was removed while the command awaited, and \<^verbatim>\<open>serverPolls.set\<close> throws
  then, before the timer is armed.
\<close>

definition execute_open :: "voteCommand \<Rightarrow> world \<Rightarrow> (error \<times> world) + world" where
  "execute_open c w =
     (let voters = eligible (v_members c);
          duration = milliseconds (v_duration c);
          pollId = v_replyId c
      in case map_of (activePolls w) (v_guildId c) of
           None \<Rightarrow> Inl (TypeError, w)
         | Some serverPolls \<Rightarrow>
             Inr (send (FollowUp_Created pollId (length voters))
                    (openPoll c duration voters serverPolls w)))"

text \<open>The three parts in one run.\<close>

definition execute :: "voteCommand \<Rightarrow> world \<Rightarrow> (error \<times> world) + world" where
  "execute c w =
     (case execute_begin c w of
        Inl x \<Rightarrow> Inl x
      | Inr (Returned w1) \<Rightarrow> Inr w1
      | Inr (Replied w1) \<Rightarrow> execute_open c (ensureGuildMap (v_guildId c) w1))"

subsection \<open>The button handler\<close>

text \<open>
  A click carries the user and the number \<^verbatim>\<open>parseInt\<close> read from the button's id.
  \<^verbatim>\<open>options[optionIndex]\<close> is \<^verbatim>\<open>undefined\<close> (\<open>None\<close>) outside the array.
\<close>

record click =
  userId :: string
  optionIndex :: jsnum

definition label :: "string list \<Rightarrow> jsnum \<Rightarrow> string option" where
  "label opts i =
     (case i of
        Num k \<Rightarrow> if 0 \<le> k \<and> nat k < length opts then Some (opts ! nat k) else None
      | _ \<Rightarrow> None)"

text \<open>
  Lines 634 to 656, up to the acknowledgement the handler awaits.
  \<^verbatim>\<open>serverPolls.get(pollId)!\<close> is \<^verbatim>\<open>undefined\<close> once the poll is removed, and reading its
  \<^verbatim>\<open>eligibleVoters\<close> throws before anything is sent or written. The result holds the
  session record when the vote was written, \<open>None\<close> when the voter was refused.
\<close>

definition collect_write :: "collector \<Rightarrow> click \<Rightarrow> world \<Rightarrow> error + (pollData option \<times> world)" where
  "collect_write c b w =
     (case map_of (mapAt w (c_serverPolls c)) (c_pollId c) of
        None \<Rightarrow> Inl TypeError
      | Some pollData \<Rightarrow>
          if length (eligibleVoters pollData) > 0 \<and> userId b \<notin> set (eligibleVoters pollData)
          then Inr (None, send (Reply_NoPermission (userId b)) w)
          else
            (let pollData' = pollData\<lparr>votes := AList.update (userId b) (optionIndex b) (votes pollData)\<rparr>;
                 w1 = putMap (c_serverPolls c)
                        (AList.update (c_pollId c) pollData' (mapAt w (c_serverPolls c))) w
             in Inr (Some pollData',
                     send (Reply_Recorded (userId b) (label (c_options c) (optionIndex b))) w1)))"

text \<open>
  Lines 658 to 665: the check for full participation, on the session record the
  handler holds, and the early end. When \<^verbatim>\<open>endPoll\<close> throws, the timer is cleared already
  and \<^verbatim>\<open>collector.stop()\<close> is not reached.
\<close>

definition collect_check :: "collector \<Rightarrow> pollData \<Rightarrow> world \<Rightarrow> (error \<times> world) + world" where
  "collect_check c pollData w =
     (if length (eligibleVoters pollData) > 0
         \<and> length (votes pollData) \<ge> length (eligibleVoters pollData)
      then (case endPoll (c_message c) (c_pollId c) (c_guildId c)
                   (clearTimeout (timeout pollData) w) of
              Inl x \<Rightarrow> Inl x
            | Inr w' \<Rightarrow> Inr (stopCollector (c_message c) w'))
      else Inr w)"

text \<open>The handler in one run.\<close>

definition collect :: "collector \<Rightarrow> click \<Rightarrow> world \<Rightarrow> (error \<times> world) + world" where
  "collect c b w =
     (case collect_write c b w of
        Inl e \<Rightarrow> Inl (e, w)
      | Inr (None, w') \<Rightarrow> Inr w'
      | Inr (Some pollData, w') \<Rightarrow> collect_check c pollData w')"

text \<open>
  A click on a message reaches the handler of its collector while that collector is
  live; the collector ends when it is stopped or its time is up. No other code of the
  program handles a click: the dispatcher returns at once for what is not a command
  (\<^verbatim>\<open>index.ts\<close>, line 94).
\<close>

definition clickOn :: "string \<Rightarrow> click \<Rightarrow> world \<Rightarrow> (error \<times> world) + world" where
  "clickOn m b w =
     (case map_of (collectors w) m of
        None \<Rightarrow> Inr w
      | Some c \<Rightarrow> collect c b w)"

subsection \<open>The \<^verbatim>\<open>endpoll\<close> command\<close>

record endCommand =
  e_guildId :: string
  e_pollId :: "string option"

datatype suspended =
    Answered world
  | Calls_endPoll string string string world

text \<open>Lines 752 to 788, up to the call of \<^verbatim>\<open>endPoll\<close>; \<^verbatim>\<open>!pollId\<close> holds for a missing
  and for an empty id.\<close>

definition endExecute_pre :: "endCommand \<Rightarrow> world \<Rightarrow> suspended" where
  "endExecute_pre c w =
     (case map_of (activePolls w) (e_guildId c) of
        None \<Rightarrow> Answered (send Reply_NoActivePolls w)
      | Some serverPolls \<Rightarrow>
          if length (mapAt w serverPolls) = 0 then Answered (send Reply_NoActivePolls w)
          else
            (case e_pollId c of
               None \<Rightarrow>
                 Answered (send (Reply_ActivePolls
                   (map (\<lambda>(pid, d). (pid, length (votes d), length (eligibleVoters d)))
                      (mapAt w serverPolls))) w)
             | Some pollId \<Rightarrow>
                 if pollId = [] then
                   Answered (send (Reply_ActivePolls
                     (map (\<lambda>(pid, d). (pid, length (votes d), length (eligibleVoters d)))
                        (mapAt w serverPolls))) w)
                 else
                   (case map_of (mapAt w serverPolls) pollId of
                      None \<Rightarrow> Answered (send (Reply_NoPollFound pollId) w)
                    | Some pollData \<Rightarrow>
                        Calls_endPoll (message pollData) pollId (e_guildId c)
                          (clearTimeout (timeout pollData) w))))"

text \<open>The command in one run. The collector of the poll is not stopped here.\<close>

definition endExecute :: "endCommand \<Rightarrow> world \<Rightarrow> (error \<times> world) + world" where
  "endExecute c w =
     (case endExecute_pre c w of
        Answered w' \<Rightarrow> Inr w'
      | Calls_endPoll msg pollId guildId w' \<Rightarrow>
          (case endPoll msg pollId guildId w' of
             Inl x \<Rightarrow> Inl x
           | Inr w'' \<Rightarrow> Inr (send (Reply_EndedManually pollId) w'')))"

subsection \<open>Runs\<close>

text \<open>
  What the event loop delivers: a \<^verbatim>\<open>vote\<close> command, a click on a poll's message, a
  timer that fires, a collector whose time is up, an \<^verbatim>\<open>endpoll\<close> command. In a \<open>run\<close>
  each handler runs to its end before the next event is delivered. The program has more
  runs than these, those in which a handler runs while another awaits; a property
  proved of \<open>run\<close> is a property of the program where each part of a handler keeps it
  (\<open>interleaved\<close> below), and the theorems about one handler say what they need of the
  state it starts in.
\<close>

datatype event =
    Vote voteCommand
  | Click string click
  | TimerFires nat
  | CollectorEnds string
  | EndPollCmd endCommand

fun step :: "event \<Rightarrow> world \<Rightarrow> world" where
  "step (Vote c) w = dispatch (execute c w)"
| "step (Click m b) w = settle (clickOn m b w)"
| "step (TimerFires h) w = timerFires h w"
| "step (CollectorEnds m) w = stopCollector m w"
| "step (EndPollCmd c) w = dispatch (endExecute c w)"

fun run :: "event list \<Rightarrow> world \<Rightarrow> world" where
  "run [] w = w"
| "run (e # es) w = run es (step e w)"

section \<open>Properties\<close>

subsection \<open>Predicates on sessions and runs\<close>

text \<open>An option index that names one of the options, and a ledger that holds only such.\<close>

definition validIndex :: "nat \<Rightarrow> jsnum \<Rightarrow> bool" where
  "validIndex n i = (case i of Num k \<Rightarrow> 0 \<le> k \<and> k < int n | _ \<Rightarrow> False)"

definition ledgerInRange :: "pollData \<Rightarrow> bool" where
  "ledgerInRange d = list_all (\<lambda>v. validIndex (length (options d)) (snd v)) (votes d)"

text \<open>
  The buttons of a poll's message (lines 565 to 570) carry the ids \<^verbatim>\<open>vote_0\<close>,
  \<^verbatim>\<open>vote_1\<close>, ... one per option; \<open>buttons\<close> are the numbers \<^verbatim>\<open>parseInt\<close> reads from
  them. A click is one on a rendered button when its number is among them, and a run is
  \<open>rendered\<close> when each of its clicks is.
\<close>

definition buttons :: "string list \<Rightarrow> jsnum list" where
  "buttons opts = map (\<lambda>index. Num (int index)) [0..<length opts]"

definition renderedClick :: "event \<Rightarrow> world \<Rightarrow> bool" where
  "renderedClick e w =
     (case e of
        Click m b \<Rightarrow>
          (case map_of (collectors w) m of
             None \<Rightarrow> True
           | Some c \<Rightarrow>
               (case map_of (mapAt w (c_serverPolls c)) (c_pollId c) of
                  None \<Rightarrow> True
                | Some d \<Rightarrow> optionIndex b \<in> set (buttons (options d))))
      | _ \<Rightarrow> True)"

fun rendered :: "event list \<Rightarrow> world \<Rightarrow> bool" where
  "rendered [] w = True"
| "rendered (e # es) w = (renderedClick e w \<and> rendered es (step e w))"

text \<open>Every session of the heap, live or not, satisfies \<open>P\<close>.\<close>

definition allPolls :: "(pollData \<Rightarrow> bool) \<Rightarrow> world \<Rightarrow> bool" where
  "allPolls P w = list_all (\<lambda>(a, m). list_all (\<lambda>(p, d). P d) m) (heap w)"

text \<open>One entry per voter, all of them eligible when eligibility is enforced; and the
  bound on the size of the ledger that follows.\<close>

definition oneVoteEach :: "pollData \<Rightarrow> bool" where
  "oneVoteEach d =
     (distinct (map fst (votes d))
      \<and> (eligibleVoters d = [] \<or> set (map fst (votes d)) \<subseteq> set (eligibleVoters d)))"

definition withinEligible :: "pollData \<Rightarrow> bool" where
  "withinEligible d = (eligibleVoters d \<noteq> [] \<longrightarrow> length (votes d) \<le> length (eligibleVoters d))"

text \<open>The options of a session are two to five.\<close>

definition optionCount :: "pollData \<Rightarrow> bool" where
  "optionCount d = (2 \<le> length (options d) \<and> length (options d) \<le> 5)"

text \<open>
  The test at the head of \<^verbatim>\<open>endPoll\<close> (lines 685 and 686): the guild has a map and the
  map has the poll.
\<close>

definition inStore :: "string \<Rightarrow> string \<Rightarrow> world \<Rightarrow> bool" where
  "inStore g p w =
     (case map_of (activePolls w) g of
        None \<Rightarrow> False
      | Some serverPolls \<Rightarrow> map_of (mapAt w serverPolls) p \<noteq> None)"

text \<open>\<open>Q\<close> holds of the state in which a handler ends, returned or thrown.\<close>

definition ending :: "(world \<Rightarrow> bool) \<Rightarrow> (error \<times> world) + world \<Rightarrow> bool" where
  "ending Q r = (case r of Inr w \<Rightarrow> Q w | Inl (e, w) \<Rightarrow> Q w)"

text \<open>
  The states of the program, whatever the order in which the parts of its handlers run.
  The heap of sessions is written by four parts only: the creation of a guild's map, the
  entry of a new poll (whose options the first part of the command has counted), the
  write of a vote, and the removal at the end of \<^verbatim>\<open>endPoll\<close>. Every other part leaves the
  heap as it is, whatever else it changes. \<open>ok\<close> is what is known of the clicks that are
  written.
\<close>

inductive interleaved :: "(pollData \<Rightarrow> click \<Rightarrow> bool) \<Rightarrow> world \<Rightarrow> bool"
  for ok :: "pollData \<Rightarrow> click \<Rightarrow> bool" where
  started: "interleaved ok (init limit)"
| other: "interleaved ok w \<Longrightarrow> heap w' = heap w \<Longrightarrow> interleaved ok w'"
| mapped: "interleaved ok w \<Longrightarrow> interleaved ok (ensureGuildMap g w)"
| opened: "interleaved ok w \<Longrightarrow> 2 \<le> length (v_options c) \<Longrightarrow> length (v_options c) \<le> 5 \<Longrightarrow>
           execute_open c w = Inr w' \<Longrightarrow> interleaved ok w'"
| written: "interleaved ok w \<Longrightarrow> map_of (mapAt w (c_serverPolls c)) (c_pollId c) = Some d \<Longrightarrow>
            ok d b \<Longrightarrow> collect_write c b w = Inr (r, w') \<Longrightarrow> interleaved ok w'"
| removed: "interleaved ok w \<Longrightarrow> interleaved ok (endPoll_finish a p g w)"

subsection \<open>The result compiler, in the words of the specification\<close>

text \<open>
  Per-option counts over all recorded votes; \<open>maxVotes\<close> their maximum; no votes cast
  when it is 0, the sole winner when exactly one option has it, otherwise the tie of the
  options that have it, in the order of the options.
\<close>

datatype report = NoVotes | SoleWinner string nat | Tie "string list" nat

definition spec_counts :: "string list \<Rightarrow> (string \<times> jsnum) list \<Rightarrow> nat list" where
  "spec_counts opts vs = map (\<lambda>i. length (filter (\<lambda>v. snd v = Num (int i)) vs)) [0..<length opts]"

definition spec_report :: "string list \<Rightarrow> nat list \<Rightarrow> report" where
  "spec_report opts cs =
     (let maxVotes = fold max cs 0;
          winners = map fst (filter (\<lambda>(opt, c). c = maxVotes) (zip opts cs))
      in if maxVotes = 0 then NoVotes
         else if length winners = 1 then SoleWinner (hd winners) maxVotes
         else Tie winners maxVotes)"

fun verdict_of :: "report \<Rightarrow> verdict" where
  "verdict_of NoVotes = NoVotesCast"
| "verdict_of (SoleWinner x n) = Winner x (Num (int n))"
| "verdict_of (Tie xs n) = TieBetween xs (Num (int n))"

subsection \<open>A poll of two options\<close>

text \<open>
  The guild \<open>g\<close> runs the poll \<open>m1\<close> with the options A and B for five minutes. Alice
  and Bob may vote; the robot is a bot and Carol cannot see the channel.
  \<open>m1_world vs out\<close> is the state with that poll open, the ledger \<open>vs\<close> and the trace
  \<open>out\<close> after the poll's two opening messages, on an engine that takes 65535
  arguments.
\<close>

definition poll_cmd :: voteCommand where
  "poll_cmd = \<lparr> v_question = ''Lunch?'', v_options = [''A'', ''B''], v_duration = 5,
      v_guildId = ''g'', v_textChannel = True, v_replyId = ''m1'',
      v_members = Some [\<lparr>memberId = ''alice'', isBot = False, canView = True\<rparr>,
                        \<lparr>memberId = ''bob'', isBot = False, canView = True\<rparr>,
                        \<lparr>memberId = ''robot'', isBot = True, canView = True\<rparr>,
                        \<lparr>memberId = ''carol'', isBot = False, canView = False\<rparr>] \<rparr>"

definition m1_collector :: collector where
  "m1_collector = \<lparr>c_serverPolls = 0, c_pollId = ''m1'', c_guildId = ''g'', c_message = ''m1'',
      c_options = [''A'', ''B'']\<rparr>"

definition m1_poll :: "(string \<times> jsnum) list \<Rightarrow> pollData" where
  "m1_poll vs = \<lparr>message = ''m1'', timeout = 0, options = [''A'', ''B''], votes = vs,
      eligibleVoters = [''alice'', ''bob'']\<rparr>"

definition m1_world :: "(string \<times> jsnum) list \<Rightarrow> effect list \<Rightarrow> world" where
  "m1_world vs out =
     \<lparr> activePolls = [(''g'', 0)],
       heap = [(0, [(''m1'', m1_poll vs)])],
       timers = [(0, \<lparr>delay = 300000, t_message = ''m1'', t_pollId = ''m1'', t_guildId = ''g''\<rparr>)],
       collectors = [(''m1'', m1_collector)],
       nextMap = 1, nextTimer = 1,
       sent = [PollMessage ''m1'' ''Lunch?'' [''A'', ''B''], FollowUp_Created ''m1'' 2] @ out,
       unhandled = [], maxArguments = 65535 \<rparr>"

text \<open>The poll opened and closed by hand: its collector is still live.\<close>

definition closed_world :: world where
  "closed_world =
     run [Vote poll_cmd, EndPollCmd \<lparr>e_guildId = ''g'', e_pollId = Some ''m1''\<rparr>] (init 65535)"

text \<open>Three options and four votes, two for A and two for B.\<close>

definition tie_poll :: pollData where
  "tie_poll = \<lparr>message = ''m2'', timeout = 0, options = [''A'', ''B'', ''C''],
      votes = [(''u1'', Num 0), (''u2'', Num 1), (''u3'', Num 0), (''u4'', Num 1)],
      eligibleVoters = []\<rparr>"

text \<open>
  The poll \<open>m1\<close> after its deadline timer has fired, with the trace \<open>out\<close> after the
  opening messages, and the results of a poll in which nobody voted.
\<close>

definition no_votes :: pollResults where
  "no_votes = \<lparr>counts = [(''A'', Some (Num 0)), (''B'', Some (Num 0))], outcome = NoVotesCast,
      participation = Some (0, 2)\<rparr>"

definition timer_fired :: "effect list \<Rightarrow> world" where
  "timer_fired out = (m1_world [] out)\<lparr>timers := []\<rparr>"

text \<open>The poll \<open>m1\<close> removed from the store, its collector still live.\<close>

definition m1_removed :: "effect list \<Rightarrow> world" where
  "m1_removed out =
     \<lparr> activePolls = [], heap = [(0, [])], timers = [], collectors = [(''m1'', m1_collector)],
       nextMap = 1, nextTimer = 1,
       sent = [PollMessage ''m1'' ''Lunch?'' [''A'', ''B''], FollowUp_Created ''m1'' 2] @ out,
       unhandled = [], maxArguments = 65535 \<rparr>"

text \<open>
  A second poll of the guild, \<open>m2\<close>, asked for once \<open>m1\<close> is out of the store.
  \<open>m2_world store vs ts cs out\<close> is the state with \<open>m2\<close> in the second map of the heap, the
  first left empty: \<open>store\<close> is \<^verbatim>\<open>activePolls\<close>, \<open>vs\<close> the ledger of \<open>m2\<close>, \<open>ts\<close> the timers,
  \<open>cs\<close> the collectors and \<open>out\<close> the trace after the opening messages of \<open>m1\<close>.
\<close>

definition poll_cmd2 :: voteCommand where
  "poll_cmd2 = poll_cmd\<lparr>v_question := ''Dinner?'', v_replyId := ''m2''\<rparr>"

definition m2_collector :: collector where
  "m2_collector = \<lparr>c_serverPolls = 1, c_pollId = ''m2'', c_guildId = ''g'', c_message = ''m2'',
      c_options = [''A'', ''B'']\<rparr>"

definition m2_timer :: timer where
  "m2_timer = \<lparr>delay = 300000, t_message = ''m2'', t_pollId = ''m2'', t_guildId = ''g''\<rparr>"

definition m2_poll :: "(string \<times> jsnum) list \<Rightarrow> pollData" where
  "m2_poll vs = \<lparr>message = ''m2'', timeout = 1, options = [''A'', ''B''], votes = vs,
      eligibleVoters = [''alice'', ''bob'']\<rparr>"

definition m2_world ::
    "(string \<times> nat) list \<Rightarrow> (string \<times> jsnum) list \<Rightarrow> (nat \<times> timer) list \<Rightarrow>
     (string \<times> collector) list \<Rightarrow> effect list \<Rightarrow> world" where
  "m2_world store vs ts cs out =
     \<lparr> activePolls = store,
       heap = [(0, []), (1, [(''m2'', m2_poll vs)])],
       timers = ts, collectors = cs, nextMap = 2, nextTimer = 2,
       sent = [PollMessage ''m1'' ''Lunch?'' [''A'', ''B''], FollowUp_Created ''m1'' 2] @ out,
       unhandled = [], maxArguments = 65535 \<rparr>"

section \<open>Proofs\<close>

subsection \<open>The array of counts\<close>

lemma bump_valid:
  assumes "validIndex (length cs) i" "length cs \<le> 5"
  shows "\<exists>k<length cs. i = Num (int k) \<and> bump cs i = cs[k := Some (incr (cs ! k))]"
proof -
  from assms(1) obtain z where z: "i = Num z" "0 \<le> z" "z < int (length cs)"
    by (auto simp: validIndex_def split: jsnum.splits)
  then have n: "nat z < length cs" and i: "i = Num (int (nat z))" by auto
  from z assms(2) have "z < 4294967295" by linarith
  with z n have "bump cs i = cs[nat z := Some (incr (cs ! nat z))]"
    by (simp add: bump_def)
  with n i show ?thesis by blast
qed

lemma foldl_bump_counts:
  assumes "list_all (\<lambda>v. validIndex n (snd v)) vs" "n \<le> 5"
  shows "foldl bump (map (\<lambda>j. Some (Num (int (f j)))) [0..<n]) (map snd vs)
       = map (\<lambda>j. Some (Num (int (f j + length (filter (\<lambda>v. snd v = Num (int j)) vs))))) [0..<n]"
  using assms(1)
proof (induction vs arbitrary: f)
  case Nil
  then show ?case by simp
next
  case (Cons v vs)
  let ?cs = "map (\<lambda>j. Some (Num (int (f j)))) [0..<n]"
  from Cons.prems have v: "validIndex (length ?cs) (snd v)" and rest: "list_all (\<lambda>v. validIndex n (snd v)) vs"
    by simp_all
  have "length ?cs \<le> 5" using assms(2) by simp
  from bump_valid[OF v this] obtain k where k: "k < n" "snd v = Num (int k)"
      "bump ?cs (snd v) = ?cs[k := Some (incr (?cs ! k))]"
    by auto
  let ?g = "\<lambda>j. if j = k then Suc (f j) else f j"
  have "bump ?cs (snd v) = map (\<lambda>j. Some (Num (int (?g j)))) [0..<n]"
    unfolding k(3) using k(1) by (auto simp: list_eq_iff_nth_eq nth_list_update)
  then have "foldl bump ?cs (map snd (v # vs))
      = map (\<lambda>j. Some (Num (int (?g j + length (filter (\<lambda>v. snd v = Num (int j)) vs))))) [0..<n]"
    using Cons.IH[OF rest, of ?g] by simp
  also have "\<dots> = map (\<lambda>j. Some (Num (int (f j + length (filter (\<lambda>v. snd v = Num (int j)) (v # vs)))))) [0..<n]"
    using k(2) by auto
  finally show ?case .
qed

lemma voteCounts_spec:
  assumes "list_all (\<lambda>v. validIndex (length opts) (snd v)) vs" "length opts \<le> 5"
  shows "voteCounts opts vs = map (\<lambda>c. Some (Num (int c))) (spec_counts opts vs)"
proof -
  have "replicate (length opts) (Some (Num 0)) = map (\<lambda>j. Some (Num (int ((\<lambda>_. 0) j)))) [0..<length opts]"
    by (simp add: map_replicate_const)
  then show ?thesis
    unfolding voteCounts_def spec_counts_def
    using foldl_bump_counts[OF assms, of "\<lambda>_. 0"] by (simp add: comp_def)
qed

lemma foldl_max2_Num:
  "foldl max2 (Num (int a)) (map toNumber (map (\<lambda>c. Some (Num (int c))) cs)) = Num (int (fold max cs a))"
  by (induction cs arbitrary: a) (simp_all add: max.commute flip: of_nat_max)

lemma Math_max_counts:
  assumes "cs \<noteq> []" "length cs \<le> limit"
  shows "Math_max limit (map (\<lambda>c. Some (Num (int c))) cs) = Inr (Num (int (fold max cs 0)))"
proof -
  from assms(1) obtain c cs' where cs: "cs = c # cs'" by (cases cs) auto
  have "foldl max2 NegInfinity (map toNumber (map (\<lambda>c. Some (Num (int c))) cs)) = Num (int (fold max cs 0))"
    unfolding cs using foldl_max2_Num[of c cs'] by simp
  with assms(2) show ?thesis by (simp add: Math_max_def)
qed

lemma winners_by_index:
  assumes "length xs = length cs"
      and "\<forall>j<length xs. Q (k + j) = P (cs ! j)"
  shows "map fst (filter (\<lambda>(x, i). Q i) (zip xs [k..<k + length xs]))
       = map fst (filter (\<lambda>(x, c). P c) (zip xs cs))"
  using assms
proof (induction xs cs arbitrary: k rule: list_induct2)
  case Nil
  then show ?case by simp
next
  case (Cons x xs c cs)
  have "[k..<k + Suc (length xs)] = k # [Suc k..<k + Suc (length xs)]"
    by (rule upt_conv_Cons) simp
  then have upt: "[k..<k + length (x # xs)] = k # [Suc k..<Suc k + length xs]"
    by (simp del: upt_Suc)
  have hd: "Q k = P c" using Cons.prems by fastforce
  have "\<forall>j<length xs. Q (Suc k + j) = P (cs ! j)"
  proof (intro allI impI)
    fix j assume "j < length xs"
    then have "Q (k + Suc j) = P ((c # cs) ! Suc j)" using Cons.prems by auto
    then show "Q (Suc k + j) = P (cs ! j)" by simp
  qed
  from Cons.IH[OF this] show ?case unfolding upt by (simp add: hd)
qed

lemma counts_zip:
  "length cs = length opts \<Longrightarrow>
   map (\<lambda>(opt, index). (opt, cell (map f cs) index)) (indexed opts) = zip opts (map f cs)"
  by (rule nth_equalityI) (simp_all add: indexed_def cell_def)

lemma nth0_hd: "length xs = 1 \<Longrightarrow> xs ! 0 = hd xs"
  by (cases xs) auto

text \<open>
  The results of a session of two to five options whose ledger holds option indices in
  range, on an engine that takes one argument for each option.
\<close>

lemma compileResults_tally:
  assumes "2 \<le> length (options d)" "length (options d) \<le> 5" "ledgerInRange d"
      and "length (options d) \<le> limit"
  shows "compileResults limit d =
           Inr \<lparr> counts = zip (options d)
                            (map (\<lambda>c. Some (Num (int c))) (spec_counts (options d) (votes d))),
                 outcome = verdict_of (spec_report (options d) (spec_counts (options d) (votes d))),
                 participation =
                   (if length (eligibleVoters d) > 0
                    then Some (length (votes d), length (eligibleVoters d)) else None) \<rparr>"
proof -
  let ?opts = "options d"
  let ?cs = "spec_counts ?opts (votes d)"
  let ?vc = "map (\<lambda>c. Some (Num (int c))) ?cs"
  let ?M = "fold max ?cs 0"
  have len: "length ?cs = length ?opts" by (simp add: spec_counts_def)
  have vc: "voteCounts ?opts (votes d) = ?vc"
    using assms(2,3) by (simp add: voteCounts_spec ledgerInRange_def)
  have ne: "?cs \<noteq> []" using assms(1) len by auto
  have "length ?cs \<le> limit" using assms(4) len by simp
  from Math_max_counts[OF ne this] have mx: "Math_max limit ?vc = Inr (Num (int ?M))" .
  have cellv: "cell ?vc j = Some (Num (int (?cs ! j)))" if "j < length ?opts" for j
    using that len by (simp add: cell_def)
  have "map fst (filter (\<lambda>(x, i). strictEq (cell ?vc i) (Num (int ?M))) (zip ?opts [0..<0 + length ?opts]))
      = map fst (filter (\<lambda>(x, c). c = ?M) (zip ?opts ?cs))"
    by (rule winners_by_index) (use len cellv in auto)
  then have w: "map fst (filter (\<lambda>(opt, index). strictEq (cell ?vc index) (Num (int ?M))) (indexed ?opts))
      = map fst (filter (\<lambda>(opt, c). c = ?M) (zip ?opts ?cs))"
    by (simp add: indexed_def)
  have o: "(let winners = map fst (filter (\<lambda>(opt, c). c = ?M) (zip ?opts ?cs))
       in if 0 < ?M then (if length winners = 1 then Winner (winners ! 0) (Num (int ?M))
                          else TieBetween winners (Num (int ?M)))
          else NoVotesCast) = verdict_of (spec_report ?opts ?cs)"
    unfolding spec_report_def Let_def by (simp add: nth0_hd)
  show ?thesis
    using o by (simp add: compileResults_def Let_def vc mx w counts_zip[OF len])
qed

lemma spec_counts_nth:
  "k < length opts \<Longrightarrow> spec_counts opts vs ! k = length (filter (\<lambda>v. snd v = Num (int k)) vs)"
  by (simp add: spec_counts_def)

text \<open>\<^verbatim>\<open>NaN\<close> among the arguments of \<^verbatim>\<open>Math.max\<close> is its result.\<close>

lemma max2_NaN [simp]: "max2 x NaN = NaN"
  by (cases x) simp_all

lemma foldl_max2_NaN [simp]: "foldl max2 NaN xs = NaN"
  by (induction xs) simp_all

text \<open>An index past the end makes the array as long as the index says.\<close>

lemma length_bump:
  "length (bump cs i) =
     (case i of
        Num k \<Rightarrow> if 0 \<le> k \<and> k < 4294967295 \<and> length cs \<le> nat k then nat k + 1 else length cs
      | _ \<Rightarrow> length cs)"
  by (auto simp: bump_def split: jsnum.splits)

lemma compileResults_RangeError:
  "limit < length (voteCounts (options d) (votes d)) \<Longrightarrow> compileResults limit d = Inl RangeError"
  by (simp add: compileResults_def Math_max_def Let_def)

subsection \<open>What the parts of the handlers do to the heap\<close>

lemma list_all_update:
  "list_all Q al \<Longrightarrow> Q (k, v) \<Longrightarrow> list_all Q (AList.update k v al)"
  by (induction al) auto

lemma list_all_delete:
  "list_all Q al \<Longrightarrow> list_all Q (AList.delete k al)"
  by (induction al) auto

lemma allPolls_init: "allPolls P (init limit)"
  by (simp add: allPolls_def init_def)

lemma allPolls_heap: "heap w' = heap w \<Longrightarrow> allPolls P w \<Longrightarrow> allPolls P w'"
  by (simp add: allPolls_def)

lemma allPolls_mapAt:
  assumes "allPolls P w"
  shows "list_all (\<lambda>(p, d). P d) (mapAt w a)"
proof (cases "map_of (heap w) a")
  case None
  then show ?thesis by (simp add: mapAt_def)
next
  case (Some m)
  then have "(a, m) \<in> set (heap w)" by (rule map_of_SomeD)
  with assms have "list_all (\<lambda>(p, d). P d) m"
    by (auto simp: allPolls_def list_all_iff)
  with Some show ?thesis by (simp add: mapAt_def)
qed

lemma allPolls_found:
  "allPolls P w \<Longrightarrow> map_of (mapAt w a) p = Some d \<Longrightarrow> P d"
  using allPolls_mapAt[of P w a] by (auto simp: list_all_iff dest!: map_of_SomeD)

lemma allPolls_putMap:
  "allPolls P w \<Longrightarrow> list_all (\<lambda>(p, d). P d) m \<Longrightarrow> allPolls P (putMap a m w)"
  by (simp add: allPolls_def putMap_def list_all_update)

lemma allPolls_mono:
  "allPolls P w \<Longrightarrow> (\<And>d. P d \<Longrightarrow> Q d) \<Longrightarrow> allPolls Q w"
  unfolding allPolls_def list_all_iff by fastforce

lemma allPolls_endPoll_finish:
  "allPolls P w \<Longrightarrow> allPolls P (endPoll_finish a p g w)"
proof -
  assume w: "allPolls P w"
  have "allPolls P (putMap a (AList.delete p (mapAt w a)) w)"
    by (rule allPolls_putMap[OF w]) (rule list_all_delete[OF allPolls_mapAt[OF w]])
  then show ?thesis by (simp add: endPoll_finish_def Let_def allPolls_def)
qed

lemma allPolls_ensureGuildMap:
  "allPolls P w \<Longrightarrow> allPolls P (ensureGuildMap g w)"
  by (auto simp: ensureGuildMap_def allPolls_def intro!: list_all_update)

lemma allPolls_openPoll:
  assumes w: "allPolls P w"
      and fresh: "\<And>m t ev. P \<lparr>message = m, timeout = t, options = v_options c, votes = [], eligibleVoters = ev\<rparr>"
  shows "allPolls P (openPoll c dur voters a w)"
proof -
  define w1 where "w1 = w\<lparr>timers := AList.update (nextTimer w)
                    \<lparr>delay = dur, t_message = v_replyId c, t_pollId = v_replyId c,
                      t_guildId = v_guildId c\<rparr> (timers w),
                  nextTimer := Suc (nextTimer w)\<rparr>"
  define d where "d = \<lparr>message = v_replyId c, timeout = nextTimer w, options = v_options c, votes = [],
                      eligibleVoters = voters\<rparr>"
  have w1: "allPolls P w1" using w by (simp add: w1_def allPolls_def)
  have "allPolls P (putMap a (AList.update (v_replyId c) d (mapAt w1 a)) w1)"
    by (rule allPolls_putMap[OF w1], rule list_all_update[OF allPolls_mapAt[OF w1]])
       (simp add: d_def fresh)
  then show ?thesis
    by (simp add: openPoll_def Let_def w1_def d_def allPolls_def)
qed

lemma allPolls_execute_open:
  assumes w: "allPolls P w"
      and fresh: "\<And>m t ev. P \<lparr>message = m, timeout = t, options = v_options c, votes = [], eligibleVoters = ev\<rparr>"
      and ex: "execute_open c w = Inr w'"
  shows "allPolls P w'"
proof -
  from ex obtain a where
    w': "w' = send (FollowUp_Created (v_replyId c) (length (eligible (v_members c))))
                (openPoll c (milliseconds (v_duration c)) (eligible (v_members c)) a w)"
    by (auto simp: execute_open_def Let_def split: option.splits)
  have "allPolls P (openPoll c (milliseconds (v_duration c)) (eligible (v_members c)) a w)"
    by (rule allPolls_openPoll[OF w]) (rule fresh)
  then show ?thesis unfolding w' by (simp add: allPolls_def send_def)
qed

lemma allPolls_collect_write:
  assumes w: "allPolls P w"
      and found: "map_of (mapAt w (c_serverPolls c)) (c_pollId c) = Some d"
      and upd: "eligibleVoters d = [] \<or> userId b \<in> set (eligibleVoters d) \<Longrightarrow>
                  P (d\<lparr>votes := AList.update (userId b) (optionIndex b) (votes d)\<rparr>)"
      and cw: "collect_write c b w = Inr (r, w')"
  shows "allPolls P w'"
proof (cases "length (eligibleVoters d) > 0 \<and> userId b \<notin> set (eligibleVoters d)")
  case True
  with cw found have "w' = send (Reply_NoPermission (userId b)) w"
    by (auto simp: collect_write_def)
  with w show ?thesis by (simp add: allPolls_def send_def)
next
  case False
  then have ok: "eligibleVoters d = [] \<or> userId b \<in> set (eligibleVoters d)" by auto
  let ?d = "d\<lparr>votes := AList.update (userId b) (optionIndex b) (votes d)\<rparr>"
  let ?w1 = "putMap (c_serverPolls c) (AList.update (c_pollId c) ?d (mapAt w (c_serverPolls c))) w"
  have "allPolls P ?w1"
    by (rule allPolls_putMap[OF w], rule list_all_update[OF allPolls_mapAt[OF w]])
       (simp add: upd[OF ok])
  moreover from cw found False
  have "w' = send (Reply_Recorded (userId b) (label (c_options c) (optionIndex b))) ?w1"
    by (auto simp: collect_write_def Let_def)
  ultimately show ?thesis by (simp add: allPolls_def send_def)
qed

text \<open>
  A property of sessions that a new poll has, and that a vote written for a voter the
  handler accepts keeps, holds of every session in every state of the program.
\<close>

lemma allPolls_interleaved:
  assumes "interleaved ok w"
      and fresh: "\<And>m t os ev. 2 \<le> length os \<Longrightarrow> length os \<le> 5 \<Longrightarrow>
                  P \<lparr>message = m, timeout = t, options = os, votes = [], eligibleVoters = ev\<rparr>"
      and upd: "\<And>d b. P d \<Longrightarrow> ok d b \<Longrightarrow> eligibleVoters d = [] \<or> userId b \<in> set (eligibleVoters d) \<Longrightarrow>
                  P (d\<lparr>votes := AList.update (userId b) (optionIndex b) (votes d)\<rparr>)"
  shows "allPolls P w"
  using assms(1)
proof (induction rule: interleaved.induct)
  case (started limit)
  show ?case by (rule allPolls_init)
next
  case (other w w')
  then show ?case by (simp add: allPolls_heap)
next
  case (mapped w g)
  then show ?case by (simp add: allPolls_ensureGuildMap)
next
  case (opened w c w')
  show ?case
    by (rule allPolls_execute_open[OF opened.IH _ opened.hyps(4)]) (rule fresh[OF opened.hyps(2,3)])
next
  case (written w c d b r w')
  have "P d" by (rule allPolls_found[OF written.IH written.hyps(2)])
  show ?case
    by (rule allPolls_collect_write[OF written.IH written.hyps(2) _ written.hyps(4)])
       (rule upd[OF \<open>P d\<close> written.hyps(3)])
next
  case (removed w a p g)
  then show ?case by (simp add: allPolls_endPoll_finish)
qed

lemma oneVoteEach_fresh:
  "oneVoteEach \<lparr>message = m, timeout = t, options = os, votes = [], eligibleVoters = ev\<rparr>"
  by (simp add: oneVoteEach_def)

lemma oneVoteEach_update:
  assumes "oneVoteEach d" "eligibleVoters d = [] \<or> u \<in> set (eligibleVoters d)"
  shows "oneVoteEach (d\<lparr>votes := AList.update u i (votes d)\<rparr>)"
  using assms by (auto simp: oneVoteEach_def distinct_update update_keys)

lemma oneVoteEach_withinEligible:
  assumes "oneVoteEach d"
  shows "withinEligible d"
proof (cases "eligibleVoters d = []")
  case True
  then show ?thesis by (simp add: withinEligible_def)
next
  case False
  with assms have d: "distinct (map fst (votes d))"
    and s: "set (map fst (votes d)) \<subseteq> set (eligibleVoters d)"
    by (auto simp: oneVoteEach_def)
  have "length (votes d) = card (set (map fst (votes d)))"
    using distinct_card[OF d] by simp
  also have "\<dots> \<le> card (set (eligibleVoters d))"
    by (rule card_mono[OF _ s]) simp
  also have "\<dots> \<le> length (eligibleVoters d)" by (rule card_length)
  finally show ?thesis by (simp add: withinEligible_def)
qed

lemma ledgerInRange_fresh:
  "ledgerInRange \<lparr>message = m, timeout = t, options = os, votes = [], eligibleVoters = ev\<rparr>"
  by (simp add: ledgerInRange_def)

lemma ledgerInRange_update:
  assumes "ledgerInRange d" "validIndex (length (options d)) i"
  shows "ledgerInRange (d\<lparr>votes := AList.update u i (votes d)\<rparr>)"
  using assms by (simp add: ledgerInRange_def list_all_update)

lemma buttons_valid: "i \<in> set (buttons opts) \<longleftrightarrow> validIndex (length opts) i"
proof
  assume "i \<in> set (buttons opts)"
  then show "validIndex (length opts) i" by (auto simp: buttons_def validIndex_def)
next
  assume "validIndex (length opts) i"
  then obtain z where z: "i = Num z" "0 \<le> z" "z < int (length opts)"
    by (auto simp: validIndex_def split: jsnum.splits)
  then have "i = Num (int (nat z))" "nat z < length opts" by auto
  then show "i \<in> set (buttons opts)" unfolding buttons_def by (metis atLeast0LessThan imageI lessThan_iff set_map set_upt)
qed

text \<open>
  In every state of the program: a voter has one entry in a ledger, an eligible one
  where eligibility is enforced, so no ledger outgrows its set of eligible voters; a
  session has two to five options; and the ledgers hold option indices in range when
  the clicks that were written came from rendered buttons.
\<close>

lemma oneVoteEach_interleaved:
  "interleaved ok w \<Longrightarrow> allPolls oneVoteEach w"
  by (erule allPolls_interleaved) (simp_all add: oneVoteEach_fresh oneVoteEach_update)

lemma withinEligible_interleaved:
  "interleaved ok w \<Longrightarrow> allPolls withinEligible w"
  by (rule allPolls_mono[OF oneVoteEach_interleaved]) (simp_all add: oneVoteEach_withinEligible)

lemma optionCount_interleaved:
  "interleaved ok w \<Longrightarrow> allPolls optionCount w"
  by (erule allPolls_interleaved) (simp_all add: optionCount_def)

lemma ledgerInRange_interleaved:
  "interleaved (\<lambda>d b. optionIndex b \<in> set (buttons (options d))) w \<Longrightarrow> allPolls ledgerInRange w"
  by (erule allPolls_interleaved)
     (simp_all add: ledgerInRange_fresh ledgerInRange_update buttons_valid)

subsection \<open>Runs are among the states of the program\<close>

lemma interleaved_send: "interleaved ok w \<Longrightarrow> interleaved ok (send e w)"
  by (erule interleaved.other) (simp add: send_def)

lemma interleaved_clearTimeout: "interleaved ok w \<Longrightarrow> interleaved ok (clearTimeout h w)"
  by (erule interleaved.other) (simp add: clearTimeout_def)

lemma interleaved_stopCollector: "interleaved ok w \<Longrightarrow> interleaved ok (stopCollector m w)"
  by (erule interleaved.other) (simp add: stopCollector_def)

lemma interleaved_settle: "ending (interleaved ok) r \<Longrightarrow> interleaved ok (settle r)"
  by (auto simp: ending_def settle_def split: sum.splits elim: interleaved.other)

lemma interleaved_dispatch: "ending (interleaved ok) r \<Longrightarrow> interleaved ok (dispatch r)"
  by (auto simp: ending_def dispatch_def interleaved_send split: sum.splits)

lemma interleaved_endPoll:
  assumes "interleaved ok w"
  shows "ending (interleaved ok) (endPoll m p g w)"
proof (cases "endPoll_begin m p g w")
  case (Inl e)
  with assms show ?thesis by (simp add: endPoll_def ending_def)
next
  case (Inr r)
  show ?thesis
  proof (cases r)
    case None
    with Inr assms show ?thesis by (simp add: endPoll_def ending_def)
  next
    case (Some t)
    obtain a res w1 where t: "t = (a, res, w1)" by (cases t)
    from Inr Some t have "w1 = send (MessageEdit_Ended m) w"
      by (auto simp: endPoll_begin_def split: option.splits sum.splits)
    with assms have "interleaved ok (endPoll_publish m res w1)"
      by (simp add: endPoll_publish_def interleaved_send)
    then have "interleaved ok (endPoll_finish a p g (endPoll_publish m res w1))"
      by (rule interleaved.removed)
    with Inr Some t show ?thesis by (simp add: endPoll_def ending_def)
  qed
qed

lemma interleaved_timerFires:
  assumes "interleaved ok w"
  shows "interleaved ok (timerFires h w)"
proof (cases "map_of (timers w) h")
  case None
  with assms show ?thesis by (simp add: timerFires_def)
next
  case (Some t)
  have "interleaved ok (w\<lparr>timers := AList.delete h (timers w)\<rparr>)"
    by (rule interleaved.other[OF assms]) simp
  then have "interleaved ok (settle (endPoll (t_message t) (t_pollId t) (t_guildId t)
                (w\<lparr>timers := AList.delete h (timers w)\<rparr>)))"
    by (intro interleaved_settle interleaved_endPoll)
  with Some show ?thesis by (simp add: timerFires_def)
qed

lemma interleaved_endExecute:
  assumes "interleaved ok w"
  shows "ending (interleaved ok) (endExecute c w)"
proof (cases "endExecute_pre c w")
  case (Answered w')
  then have "heap w' = heap w"
    by (auto simp: endExecute_pre_def send_def split: option.splits if_splits)
  with assms have "interleaved ok w'" by (rule interleaved.other)
  with Answered show ?thesis by (simp add: endExecute_def ending_def)
next
  case (Calls_endPoll m p g w')
  then have "heap w' = heap w"
    by (auto simp: endExecute_pre_def clearTimeout_def split: option.splits if_splits)
  with assms have "interleaved ok w'" by (rule interleaved.other)
  then have "ending (interleaved ok) (endPoll m p g w')" by (rule interleaved_endPoll)
  with Calls_endPoll show ?thesis
    by (auto simp: endExecute_def ending_def interleaved_send split: sum.splits)
qed

lemma interleaved_execute:
  assumes "interleaved ok w"
  shows "ending (interleaved ok) (execute c w)"
proof (cases "execute_begin c w")
  case (Inl x)
  then have "x = (BuilderError, w)"
    by (auto simp: execute_begin_def Let_def split: if_splits)
  with Inl assms show ?thesis by (simp add: execute_def ending_def)
next
  case (Inr r)
  show ?thesis
  proof (cases r)
    case (Returned w1)
    with Inr have "heap w1 = heap w"
      by (auto simp: execute_begin_def Let_def send_def split: if_splits)
    with assms have "interleaved ok w1" by (rule interleaved.other)
    with Inr Returned show ?thesis by (simp add: execute_def ending_def)
  next
    case (Replied w1)
    with Inr have w1: "w1 = send (PollMessage (v_replyId c) (v_question c) (v_options c)) w"
      and n: "2 \<le> length (v_options c)" "length (v_options c) \<le> 5"
      by (auto simp: execute_begin_def Let_def split: if_splits)
    let ?w2 = "ensureGuildMap (v_guildId c) w1"
    have w2: "interleaved ok ?w2"
      unfolding w1 by (intro interleaved.mapped interleaved_send assms)
    have "ending (interleaved ok) (execute_open c ?w2)"
    proof (cases "execute_open c ?w2")
      case (Inl x)
      then have "x = (TypeError, ?w2)"
        by (auto simp: execute_open_def Let_def split: option.splits)
      with Inl w2 show ?thesis by (simp add: ending_def)
    next
      case (Inr w')
      from interleaved.opened[OF w2 n Inr] Inr show ?thesis by (simp add: ending_def)
    qed
    with Inr Replied show ?thesis by (simp add: execute_def)
  qed
qed

lemma interleaved_collect:
  assumes w: "interleaved ok w"
      and click: "\<And>d. map_of (mapAt w (c_serverPolls c)) (c_pollId c) = Some d \<Longrightarrow> ok d b"
  shows "ending (interleaved ok) (collect c b w)"
proof (cases "map_of (mapAt w (c_serverPolls c)) (c_pollId c)")
  case None
  then have "collect c b w = Inl (TypeError, w)" by (simp add: collect_def collect_write_def)
  with w show ?thesis by (simp add: ending_def)
next
  case (Some d)
  then have "\<exists>rw. collect_write c b w = Inr rw"
    by (simp add: collect_write_def Let_def)
  then obtain r w1 where cw: "collect_write c b w = Inr (r, w1)"
    by auto
  have w1: "interleaved ok w1"
    by (rule interleaved.written[OF w Some click[OF Some] cw])
  show ?thesis
  proof (cases r)
    case None
    with cw w1 show ?thesis by (simp add: collect_def ending_def)
  next
    case (Some d')
    have "ending (interleaved ok) (collect_check c d' w1)"
    proof (cases "length (eligibleVoters d') > 0 \<and> length (votes d') \<ge> length (eligibleVoters d')")
      case True
      have "ending (interleaved ok) (endPoll (c_message c) (c_pollId c) (c_guildId c)
               (clearTimeout (timeout d') w1))"
        by (intro interleaved_endPoll interleaved_clearTimeout w1)
      with True show ?thesis
        by (auto simp: collect_check_def ending_def interleaved_stopCollector split: sum.splits)
    next
      case False
      with w1 show ?thesis by (auto simp: collect_check_def ending_def)
    qed
    with cw Some show ?thesis by (simp add: collect_def)
  qed
qed

lemma interleaved_step:
  assumes w: "interleaved ok w"
      and click: "\<And>m b c d. e = Click m b \<Longrightarrow> map_of (collectors w) m = Some c \<Longrightarrow>
                  map_of (mapAt w (c_serverPolls c)) (c_pollId c) = Some d \<Longrightarrow> ok d b"
  shows "interleaved ok (step e w)"
proof (cases e)
  case (Vote c)
  then show ?thesis using w by (simp add: interleaved_dispatch interleaved_execute)
next
  case (Click m b)
  show ?thesis
  proof (cases "map_of (collectors w) m")
    case None
    with Click w show ?thesis by (simp add: clickOn_def settle_def)
  next
    case (Some c)
    have "ending (interleaved ok) (collect c b w)"
      by (rule interleaved_collect[OF w]) (rule click[OF Click Some])
    with Click Some show ?thesis by (simp add: clickOn_def interleaved_settle)
  qed
next
  case (TimerFires h)
  then show ?thesis using w by (simp add: interleaved_timerFires)
next
  case (CollectorEnds m)
  then show ?thesis using w by (simp add: interleaved_stopCollector)
next
  case (EndPollCmd c)
  then show ?thesis using w by (simp add: interleaved_dispatch interleaved_endExecute)
qed

lemma interleaved_run:
  "interleaved (\<lambda>d b. True) w \<Longrightarrow> interleaved (\<lambda>d b. True) (run es w)"
proof (induction es arbitrary: w)
  case Nil
  then show ?case by simp
next
  case (Cons e es)
  have "interleaved (\<lambda>d b. True) (step e w)"
    by (rule interleaved_step[OF Cons.prems]) simp
  then show ?case using Cons.IH by simp
qed

lemma interleaved_rendered:
  "interleaved (\<lambda>d b. optionIndex b \<in> set (buttons (options d))) w \<Longrightarrow> rendered es w \<Longrightarrow>
   interleaved (\<lambda>d b. optionIndex b \<in> set (buttons (options d))) (run es w)"
proof (induction es arbitrary: w)
  case Nil
  then show ?case by simp
next
  case (Cons e es)
  from Cons.prems have r: "renderedClick e w" and rest: "rendered es (step e w)" by simp_all
  have "interleaved (\<lambda>d b. optionIndex b \<in> set (buttons (options d))) (step e w)"
    by (rule interleaved_step[OF Cons.prems(1)]) (use r in \<open>simp add: renderedClick_def\<close>)
  with rest show ?case using Cons.IH by simp
qed

lemma oneVoteEach_run: "allPolls oneVoteEach (run es (init limit))"
  by (rule oneVoteEach_interleaved[OF interleaved_run[OF interleaved.started]])

lemma optionCount_run: "allPolls optionCount (run es (init limit))"
  by (rule optionCount_interleaved[OF interleaved_run[OF interleaved.started]])

lemma ledgerInRange_run:
  "rendered es (init limit) \<Longrightarrow> allPolls ledgerInRange (run es (init limit))"
  by (rule ledgerInRange_interleaved[OF interleaved_rendered[OF interleaved.started]])

subsection \<open>\<^verbatim>\<open>endPoll\<close> run in one piece\<close>

lemma mapAt_putMap_same [simp]: "mapAt (putMap a m w) a = m"
  by (simp add: mapAt_def putMap_def update_conv')

lemma mapAt_putMap_other [simp]: "a' \<noteq> a \<Longrightarrow> mapAt (putMap a m w) a' = mapAt w a'"
  by (simp add: mapAt_def putMap_def update_conv')

lemma mapAt_send [simp]: "mapAt (send e w) a = mapAt w a"
  by (simp add: mapAt_def send_def)

lemma mapAt_clearTimeout [simp]: "mapAt (clearTimeout h w) a = mapAt w a"
  by (simp add: mapAt_def clearTimeout_def)

lemma mapAt_stopCollector [simp]: "mapAt (stopCollector m w) a = mapAt w a"
  by (simp add: mapAt_def stopCollector_def)

lemma inStore_endPoll_begin:
  "\<not> inStore g p w \<longleftrightarrow> endPoll_begin m p g w = Inr None"
  by (auto simp: inStore_def endPoll_begin_def split: option.splits sum.splits)

lemma endPoll_guard:
  "endPoll_begin m p g w = Inr None \<Longrightarrow> endPoll m p g w = Inr w"
  by (simp add: endPoll_def)

lemma endPoll_finish_removes:
  "map_of (mapAt (endPoll_finish a p g w) a) p = None"
  by (simp add: endPoll_finish_def Let_def mapAt_def putMap_def update_conv' delete_conv')

lemma endPoll_finish_guard:
  assumes "map_of (activePolls w) g = Some a"
  shows "endPoll_begin m p g (endPoll_finish a p g w) = Inr None"
proof -
  let ?w1 = "putMap a (AList.delete p (mapAt w a)) w"
  show ?thesis
  proof (cases "length (mapAt ?w1 a) = 0")
    case True
    then show ?thesis
      by (simp add: endPoll_finish_def Let_def endPoll_begin_def delete_conv')
  next
    case False
    have "activePolls ?w1 = activePolls w" by (simp add: putMap_def)
    with False assms show ?thesis
      by (simp add: endPoll_finish_def Let_def endPoll_begin_def delete_conv')
  qed
qed

lemma endPoll_finish_frame:
  "timers (endPoll_finish a p g w) = timers w"
  "collectors (endPoll_finish a p g w) = collectors w"
  "sent (endPoll_finish a p g w) = sent w"
  by (simp_all add: endPoll_finish_def Let_def putMap_def)

text \<open>
  A poll in the store whose results compile is closed by \<^verbatim>\<open>endPoll\<close>: the message is
  edited, the results are published and the poll is out of the store.
\<close>

lemma endPoll_closes:
  assumes g: "map_of (activePolls w) g = Some a" and p: "map_of (mapAt w a) p = Some d"
      and r: "compileResults (maxArguments w) d = Inr res"
  shows "\<exists>w'. endPoll m p g w = Inr w'
           \<and> sent w' = sent w @ [MessageEdit_Ended m, MessageReply_Results m res]
           \<and> map_of (mapAt w' a) p = None
           \<and> endPoll_begin m' p g w' = Inr None
           \<and> timers w' = timers w
           \<and> collectors w' = collectors w"
proof -
  let ?w2 = "endPoll_publish m res (send (MessageEdit_Ended m) w)"
  let ?w' = "endPoll_finish a p g ?w2"
  have e: "endPoll m p g w = Inr ?w'"
    using g p r by (simp add: endPoll_def endPoll_begin_def)
  have a2: "map_of (activePolls ?w2) g = Some a"
    using g by (simp add: endPoll_publish_def send_def)
  have s: "sent ?w' = sent w @ [MessageEdit_Ended m, MessageReply_Results m res]"
    by (simp add: endPoll_finish_frame endPoll_publish_def send_def)
  have gone: "map_of (mapAt ?w' a) p = None"
    by (rule endPoll_finish_removes)
  have guard: "endPoll_begin m' p g ?w' = Inr None"
    by (rule endPoll_finish_guard[OF a2])
  have t: "timers ?w' = timers w"
    by (simp add: endPoll_finish_frame endPoll_publish_def send_def)
  have c: "collectors ?w' = collectors w"
    by (simp add: endPoll_finish_frame endPoll_publish_def send_def)
  from e s gone guard t c show ?thesis by blast
qed

lemma endPoll_throws:
  assumes g: "map_of (activePolls w) g = Some a" and p: "map_of (mapAt w a) p = Some d"
      and r: "compileResults (maxArguments w) d = Inl e"
  shows "endPoll m p g w = Inl (e, w)"
  using g p r by (simp add: endPoll_def endPoll_begin_def)

lemma endPoll_begin_stopCollector:
  "endPoll_begin m p g w = Inr None \<Longrightarrow> endPoll_begin m p g (stopCollector x w) = Inr None"
  by (auto simp: endPoll_begin_def stopCollector_def mapAt_def split: option.splits sum.splits)

text \<open>Run in one piece, a second \<^verbatim>\<open>endPoll\<close> for the same poll does nothing.\<close>

lemma endPoll_again:
  assumes "endPoll m p g w = Inr w'"
  shows "endPoll m' p g w' = Inr w'"
proof (cases "endPoll_begin m p g w")
  case (Inl e)
  with assms show ?thesis by (simp add: endPoll_def)
next
  case (Inr r)
  show ?thesis
  proof (cases r)
    case None
    with Inr assms have "w' = w" by (simp add: endPoll_def)
    moreover from Inr None have "endPoll_begin m' p g w = Inr None"
      by (auto simp: endPoll_begin_def split: option.splits sum.splits)
    ultimately show ?thesis by (simp add: endPoll_guard)
  next
    case (Some t)
    obtain a res w1 where t: "t = (a, res, w1)" by (cases t)
    from Inr Some t obtain d where g: "map_of (activePolls w) g = Some a"
      and p: "map_of (mapAt w a) p = Some d" and r: "compileResults (maxArguments w) d = Inr res"
      by (auto simp: endPoll_begin_def split: option.splits sum.splits)
    from endPoll_closes[OF g p r, of m m'] assms show ?thesis
      by (auto simp: endPoll_guard)
  qed
qed

subsection \<open>Triggers after the removal\<close>

text \<open>
  Once a poll is out of the store, an \<^verbatim>\<open>endpoll\<close> command for it only answers that there
  is no such poll, and its timer, should it still fire, only disarms.
\<close>

lemma endExecute_after_removal:
  assumes "\<not> inStore g p w" "p \<noteq> []"
  shows "endExecute \<lparr>e_guildId = g, e_pollId = Some p\<rparr> w = Inr (send Reply_NoActivePolls w)
       \<or> endExecute \<lparr>e_guildId = g, e_pollId = Some p\<rparr> w = Inr (send (Reply_NoPollFound p) w)"
  using assms
  by (auto simp: endExecute_def endExecute_pre_def inStore_def split: option.splits)

lemma timerFires_after_removal:
  assumes "map_of (timers w) h = Some t" "\<not> inStore (t_guildId t) (t_pollId t) w"
  shows "timerFires h w = w\<lparr>timers := AList.delete h (timers w)\<rparr>"
proof -
  from assms(2) have "endPoll_begin (t_message t) (t_pollId t) (t_guildId t)
                        (w\<lparr>timers := AList.delete h (timers w)\<rparr>) = Inr None"
    by (auto simp: inStore_def endPoll_begin_def mapAt_def split: option.splits)
  then show ?thesis using assms(1) by (simp add: timerFires_def endPoll_guard settle_def)
qed

subsection \<open>The handler of a click\<close>

lemma collect_write_accepts:
  assumes p: "map_of (mapAt w (c_serverPolls c)) (c_pollId c) = Some d"
      and ok: "eligibleVoters d = [] \<or> userId b \<in> set (eligibleVoters d)"
  shows "collect_write c b w =
           Inr (Some (d\<lparr>votes := AList.update (userId b) (optionIndex b) (votes d)\<rparr>),
                send (Reply_Recorded (userId b) (label (c_options c) (optionIndex b)))
                  (putMap (c_serverPolls c)
                     (AList.update (c_pollId c)
                        (d\<lparr>votes := AList.update (userId b) (optionIndex b) (votes d)\<rparr>)
                        (mapAt w (c_serverPolls c))) w))"
  using p ok by (auto simp: collect_write_def Let_def)

text \<open>
  The vote that completes participation, on a session that is in the store under its
  guild and whose results compile, with nothing else run in between: the vote is
  written, the timer cleared, and \<^verbatim>\<open>endPoll\<close> publishes the results of the ledger with the
  vote in it and removes the poll.
\<close>

lemma collect_closes:
  assumes found: "map_of (mapAt w (c_serverPolls c)) (c_pollId c) = Some d"
      and store: "map_of (activePolls w) (c_guildId c) = Some (c_serverPolls c)"
      and enforced: "eligibleVoters d \<noteq> []"
      and voter: "userId b \<in> set (eligibleVoters d)"
      and full: "length (AList.update (userId b) (optionIndex b) (votes d)) = length (eligibleVoters d)"
      and res: "compileResults (maxArguments w)
                  (d\<lparr>votes := AList.update (userId b) (optionIndex b) (votes d)\<rparr>) = Inr r"
  shows "\<exists>w'. collect c b w = Inr w'
           \<and> map_of (timers w') (timeout d) = None
           \<and> timerFires (timeout d) w' = w'
           \<and> endPoll_begin (c_message c) (c_pollId c) (c_guildId c) w' = Inr None
           \<and> sent w' = sent w @
                [Reply_Recorded (userId b) (label (c_options c) (optionIndex b)),
                 MessageEdit_Ended (c_message c),
                 MessageReply_Results (c_message c) r]"
proof -
  let ?d = "d\<lparr>votes := AList.update (userId b) (optionIndex b) (votes d)\<rparr>"
  let ?a = "c_serverPolls c"
  let ?w1 = "send (Reply_Recorded (userId b) (label (c_options c) (optionIndex b)))
               (putMap ?a (AList.update (c_pollId c) ?d (mapAt w ?a)) w)"
  let ?w2 = "clearTimeout (timeout d) ?w1"
  have cw: "collect_write c b w = Inr (Some ?d, ?w1)"
    by (rule collect_write_accepts[OF found]) (simp add: voter)
  have g: "map_of (activePolls ?w2) (c_guildId c) = Some ?a"
    using store by (simp add: clearTimeout_def send_def putMap_def)
  have p: "map_of (mapAt ?w2 ?a) (c_pollId c) = Some ?d"
    by (simp add: update_conv')
  have m: "maxArguments ?w2 = maxArguments w"
    by (simp add: clearTimeout_def send_def putMap_def)
  from endPoll_closes[OF g p, unfolded m, OF res, of "c_message c" "c_message c"]
  obtain w3 where ep: "endPoll (c_message c) (c_pollId c) (c_guildId c) ?w2 = Inr w3"
      "sent w3 = sent ?w2 @ [MessageEdit_Ended (c_message c), MessageReply_Results (c_message c) r]"
      "endPoll_begin (c_message c) (c_pollId c) (c_guildId c) w3 = Inr None"
      "timers w3 = timers ?w2"
    by blast
  let ?w' = "stopCollector (c_message c) w3"
  have chk: "collect_check c ?d ?w1 = Inr ?w'"
    using enforced full ep(1) by (simp add: collect_check_def)
  have c: "collect c b w = Inr ?w'"
    by (simp add: collect_def cw chk)
  have "timers ?w' = timers ?w2"
    by (simp add: stopCollector_def ep(4))
  then have t: "map_of (timers ?w') (timeout d) = None"
    by (simp add: clearTimeout_def delete_conv')
  have tf: "timerFires (timeout d) ?w' = ?w'"
    using t by (simp add: timerFires_def)
  have guard: "endPoll_begin (c_message c) (c_pollId c) (c_guildId c) ?w' = Inr None"
    by (rule endPoll_begin_stopCollector) (rule ep(3))
  have "sent ?w' = sent ?w2 @ [MessageEdit_Ended (c_message c), MessageReply_Results (c_message c) r]"
    by (simp add: stopCollector_def ep(2))
  then have s: "sent ?w' = sent w @
                [Reply_Recorded (userId b) (label (c_options c) (optionIndex b)),
                 MessageEdit_Ended (c_message c),
                 MessageReply_Results (c_message c) r]"
    by (simp add: clearTimeout_def send_def putMap_def)
  from c t tf guard s show ?thesis by blast
qed

lemma clickOn_live:
  "map_of (collectors w) m = Some c \<Longrightarrow> clickOn m b w = collect c b w"
  by (simp add: clickOn_def)

subsection \<open>The example poll\<close>

lemmas engine_defs =
  init_def execute_def execute_begin_def execute_open_def setTitle_def setDescription_def
  milliseconds_def toDouble_def ensureGuildMap_def openPoll_def eligible_def setAdd_def send_def
  putMap_def mapAt_def clearTimeout_def stopCollector_def settle_def dispatch_def
  clickOn_def collect_def collect_write_def collect_check_def label_def
  endPoll_def endPoll_begin_def endPoll_publish_def endPoll_finish_def timerFires_def
  endExecute_def endExecute_pre_def Let_def

lemma description_AB: "description [''A'', ''B''] = ''1. A'' @ [CHR 0x0A] @ ''2. B''"
  by (simp add: description_def indexed_def decimal.simps)

lemma run_open: "run [Vote poll_cmd] (init 65535) = m1_world [] []"
  by (simp add: engine_defs poll_cmd_def m1_world_def m1_poll_def m1_collector_def description_AB)

lemma run_voted:
  "run [Vote poll_cmd, Click ''m1'' \<lparr>userId = ''alice'', optionIndex = Num 0\<rparr>] (init 65535)
     = m1_world [(''alice'', Num 0)] [Reply_Recorded ''alice'' (Some ''A'')]"
  by (simp add: engine_defs poll_cmd_def m1_world_def m1_poll_def m1_collector_def description_AB)

lemma closed_world_eq:
  "closed_world =
     \<lparr> activePolls = [], heap = [(0, [])], timers = [], collectors = [(''m1'', m1_collector)],
       nextMap = 1, nextTimer = 1,
       sent = [PollMessage ''m1'' ''Lunch?'' [''A'', ''B''], FollowUp_Created ''m1'' 2,
               MessageEdit_Ended ''m1'',
               MessageReply_Results ''m1''
                 \<lparr>counts = [(''A'', Some (Num 0)), (''B'', Some (Num 0))], outcome = NoVotesCast,
                   participation = Some (0, 2)\<rparr>,
               Reply_EndedManually ''m1''],
       unhandled = [], maxArguments = 65535 \<rparr>"
  unfolding closed_world_def run.simps step.simps run_open[simplified]
  by (simp add: engine_defs m1_world_def m1_poll_def m1_collector_def compileResults_def
      voteCounts_def Math_max_def indexed_def cell_def)

subsection \<open>A removal that comes late\<close>

text \<open>
  The close that runs twice goes on. The first \<^verbatim>\<open>endPoll\<close> has removed \<open>m1\<close> and, the
  guild's map being empty, the guild's entry. A \<^verbatim>\<open>vote\<close> command now opens \<open>m2\<close> in a new
  map of the guild. The second \<^verbatim>\<open>endPoll\<close>, resumed after that, removes \<open>m1\<close> again from the
  map it holds, finds that map empty and deletes the guild's entry, which is the new
  map. The poll \<open>m2\<close> is live and in no map of the store: clicks on it are written and
  acknowledged, and the click that completes participation clears its timer and stops its
  collector, while \<^verbatim>\<open>endPoll\<close> returns at its guard, so that no results are ever published.
\<close>

lemma stale_removal_orphans_poll:
  "execute poll_cmd2 (m1_removed out)
     = Inr (m2_world [(''g'', 1)] [] [(1, m2_timer)] [(''m1'', m1_collector), (''m2'', m2_collector)]
              (out @ [PollMessage ''m2'' ''Dinner?'' [''A'', ''B''], FollowUp_Created ''m2'' 2]))"
  "endPoll_finish 0 ''m1'' ''g''
       (m2_world [(''g'', 1)] [] [(1, m2_timer)] [(''m1'', m1_collector), (''m2'', m2_collector)] out')
     = m2_world [] [] [(1, m2_timer)] [(''m1'', m1_collector), (''m2'', m2_collector)] out'"
  "\<not> inStore ''g'' ''m2''
       (m2_world [] [] [(1, m2_timer)] [(''m1'', m1_collector), (''m2'', m2_collector)] out')"
  "clickOn ''m2'' \<lparr>userId = ''alice'', optionIndex = Num 0\<rparr>
       (m2_world [] [] [(1, m2_timer)] [(''m1'', m1_collector), (''m2'', m2_collector)] out')
     = Inr (m2_world [] [(''alice'', Num 0)] [(1, m2_timer)]
              [(''m1'', m1_collector), (''m2'', m2_collector)]
              (out' @ [Reply_Recorded ''alice'' (Some ''A'')]))"
  "clickOn ''m2'' \<lparr>userId = ''bob'', optionIndex = Num 1\<rparr>
       (m2_world [] [(''alice'', Num 0)] [(1, m2_timer)]
          [(''m1'', m1_collector), (''m2'', m2_collector)] out'')
     = Inr (m2_world [] [(''alice'', Num 0), (''bob'', Num 1)] [] [(''m1'', m1_collector)]
              (out'' @ [Reply_Recorded ''bob'' (Some ''B'')]))"
  by (simp_all add: engine_defs poll_cmd_def poll_cmd2_def m1_removed_def m2_world_def m2_poll_def
      m1_collector_def m2_collector_def m2_timer_def description_AB inStore_def)

section \<open>The claims\<close>

subsection \<open>Closing once\<close>

text \<open>
  C1 fails when a second trigger arrives while \<^verbatim>\<open>endPoll\<close> awaits the platform. The
  deadline timer of the poll \<open>m1\<close> fires and \<^verbatim>\<open>endPoll\<close> runs up to its first \<^verbatim>\<open>await\<close>, the
  edit of the poll's message. The poll is still in the store, so an \<^verbatim>\<open>endpoll\<close> command
  that arrives now finds it and calls \<^verbatim>\<open>endPoll\<close> again, whose guard lets it pass. Both
  runs go on to publish, so the results are sent twice, and then to remove the poll, which
  the second finds gone. (Run in one piece, a second \<^verbatim>\<open>endPoll\<close> does nothing, and a
  trigger that comes after the removal changes no session: \<open>endPoll_again\<close>,
  \<open>endExecute_after_removal\<close>, \<open>timerFires_after_removal\<close>.)
\<close>

theorem close_runs_twice:
  "timerFires 0 (m1_world [] []) = settle (endPoll ''m1'' ''m1'' ''g'' (timer_fired []))
   \<and> endPoll_begin ''m1'' ''m1'' ''g'' (timer_fired [])
       = Inr (Some (0, no_votes, timer_fired [MessageEdit_Ended ''m1'']))
   \<and> endExecute_pre \<lparr>e_guildId = ''g'', e_pollId = Some ''m1''\<rparr> (timer_fired [MessageEdit_Ended ''m1''])
       = Calls_endPoll ''m1'' ''m1'' ''g'' (timer_fired [MessageEdit_Ended ''m1''])
   \<and> endPoll_begin ''m1'' ''m1'' ''g'' (timer_fired [MessageEdit_Ended ''m1''])
       = Inr (Some (0, no_votes, timer_fired [MessageEdit_Ended ''m1'', MessageEdit_Ended ''m1'']))
   \<and> endPoll_publish ''m1'' no_votes
        (endPoll_publish ''m1'' no_votes
           (timer_fired [MessageEdit_Ended ''m1'', MessageEdit_Ended ''m1'']))
       = timer_fired [MessageEdit_Ended ''m1'', MessageEdit_Ended ''m1'',
                      MessageReply_Results ''m1'' no_votes, MessageReply_Results ''m1'' no_votes]
   \<and> endPoll_finish 0 ''m1'' ''g''
        (endPoll_finish 0 ''m1'' ''g''
           (timer_fired [MessageEdit_Ended ''m1'', MessageEdit_Ended ''m1'',
                         MessageReply_Results ''m1'' no_votes, MessageReply_Results ''m1'' no_votes]))
       = m1_removed [MessageEdit_Ended ''m1'', MessageEdit_Ended ''m1'',
                     MessageReply_Results ''m1'' no_votes, MessageReply_Results ''m1'' no_votes]"
  by (simp add: timerFires_def timer_fired_def m1_world_def m1_poll_def m1_collector_def no_votes_def
      endPoll_begin_def endPoll_publish_def endPoll_finish_def endExecute_pre_def send_def mapAt_def
      putMap_def clearTimeout_def m1_removed_def
      compileResults_def voteCounts_def Math_max_def indexed_def cell_def Let_def)

subsection \<open>Votes on a session that is closed\<close>

text \<open>
  C2 fails in two places. The poll \<open>m1\<close> is opened and then closed by the \<^verbatim>\<open>endpoll\<close>
  command, which removes it from the store and, unlike the early end in the click
  handler (line 664), leaves its collector live. A click on the poll's message still
  reaches the handler, which reads \<^verbatim>\<open>eligibleVoters\<close> of the \<^verbatim>\<open>undefined\<close> that
  \<^verbatim>\<open>serverPolls.get(pollId)!\<close> returns and throws: no message reaches the voter, and the
  rejection of the handler's promise is handled by nobody. And while \<^verbatim>\<open>endPoll\<close> awaits the
  edit of the poll's message, the results compiled and the poll not yet removed, a click
  is written to the ledger and acknowledged as recorded. (So is a click on a poll that a
  late removal has left in no map of the store, \<open>stale_removal_orphans_poll\<close>.)
\<close>

theorem late_vote_not_refused:
  "map_of (collectors closed_world) ''m1'' = Some m1_collector
   \<and> \<not> inStore ''g'' ''m1'' closed_world
   \<and> clickOn ''m1'' \<lparr>userId = ''alice'', optionIndex = Num 0\<rparr> closed_world
       = Inl (TypeError, closed_world)
   \<and> step (Click ''m1'' \<lparr>userId = ''alice'', optionIndex = Num 0\<rparr>) closed_world
       = closed_world\<lparr>unhandled := [TypeError]\<rparr>
   \<and> endPoll_begin ''m1'' ''m1'' ''g'' (timer_fired [])
       = Inr (Some (0, no_votes, timer_fired [MessageEdit_Ended ''m1'']))
   \<and> clickOn ''m1'' \<lparr>userId = ''alice'', optionIndex = Num 0\<rparr> (timer_fired [MessageEdit_Ended ''m1''])
       = Inr ((m1_world [(''alice'', Num 0)]
                 [MessageEdit_Ended ''m1'', Reply_Recorded ''alice'' (Some ''A'')])\<lparr>timers := []\<rparr>)"
  by (simp add: closed_world_eq clickOn_def collect_def collect_write_def collect_check_def
      settle_def mapAt_def putMap_def send_def label_def m1_collector_def inStore_def
      timer_fired_def m1_world_def m1_poll_def no_votes_def endPoll_begin_def
      compileResults_def voteCounts_def Math_max_def indexed_def cell_def Let_def)

subsection \<open>The result compiler\<close>

text \<open>
  C3, as amended. For a session of two to five options whose ledger holds option indices
  in range, on an engine that takes an argument for each option, \<^verbatim>\<open>endPoll\<close> compiles
  its results without throwing, the counts it reports are the per-option counts over all
  recorded votes, in the order of the options, and its winner line is the one the
  specification describes: no votes cast when the maximum is 0, the sole winner when one
  option has the maximum, the tie of all options that have it otherwise.
\<close>

theorem compileResults_refines:
  assumes "2 \<le> length (options d)" "length (options d) \<le> 5" "ledgerInRange d"
      and "length (options d) \<le> limit"
  shows "\<exists>r. compileResults limit d = Inr r
           \<and> counts r
               = zip (options d) (map (\<lambda>c. Some (Num (int c))) (spec_counts (options d) (votes d)))
           \<and> outcome r
               = verdict_of (spec_report (options d) (spec_counts (options d) (votes d)))"
  using compileResults_tally[OF assms] by simp

theorem compileResults_refines_witness:
  "2 \<le> length (options tie_poll) \<and> length (options tie_poll) \<le> 5 \<and> ledgerInRange tie_poll
   \<and> length (options tie_poll) \<le> 65535
   \<and> (\<exists>r. compileResults 65535 tie_poll = Inr r
         \<and> counts r = [(''A'', Some (Num 2)), (''B'', Some (Num 2)), (''C'', Some (Num 0))]
         \<and> outcome r = TieBetween [''A'', ''B''] (Num 2))"
proof -
  have h1: "2 \<le> length (options tie_poll)" by (simp add: tie_poll_def)
  have h2: "length (options tie_poll) \<le> 5" by (simp add: tie_poll_def)
  have h3: "ledgerInRange tie_poll" by (simp add: tie_poll_def ledgerInRange_def validIndex_def)
  have h4: "length (options tie_poll) \<le> 65535" by (simp add: tie_poll_def)
  from compileResults_refines[OF h1 h2 h3 h4] h1 h2 h3 h4 show ?thesis
    by (simp add: tie_poll_def spec_counts_def spec_report_def)
qed

text \<open>
  C3 as stated fails where the ledger holds an index out of range. With Alice's vote for
  A and Bob's vote with the index 7 in the ledger of the poll of two options, the
  per-option counts are 1 for A and 0 for B, so that A is the sole winner in the words
  of the specification. \<^verbatim>\<open>endPoll\<close> reports these counts and that no votes were cast: the
  index 7 has grown the array of counts, \<^verbatim>\<open>Math.max\<close> of it is \<^verbatim>\<open>NaN\<close>, and \<^verbatim>\<open>NaN > 0\<close> is
  false.
\<close>

theorem out_of_range_vote_hides_winner:
  "compileResults 65535 (m1_poll [(''alice'', Num 0), (''bob'', Num 7)])
     = Inr \<lparr>counts = [(''A'', Some (Num 1)), (''B'', Some (Num 0))], outcome = NoVotesCast,
            participation = Some (2, 2)\<rparr>
   \<and> spec_counts [''A'', ''B''] [(''alice'', Num 0), (''bob'', Num 7)] = [1, 0]
   \<and> spec_report [''A'', ''B''] (spec_counts [''A'', ''B''] [(''alice'', Num 0), (''bob'', Num 7)])
       = SoleWinner ''A'' 1"
  by (simp add: m1_poll_def compileResults_def voteCounts_def Math_max_def indexed_def cell_def
      bump_def spec_counts_def spec_report_def Let_def)

subsection \<open>Early closure\<close>

text \<open>
  C4, as amended. Take a session for which eligibility is enforced, which is in the
  store under its guild (the guild's entry of \<^verbatim>\<open>activePolls\<close> is the map the handler
  holds), which has two to five options and a ledger of option indices in range, on an
  engine that takes an argument for each option. When a click by an eligible voter on
  one of its options brings the size of the ledger to the number of eligible voters, the
  handler that records the vote, run with nothing else in between, also closes the
  session: the deadline timer is cleared, so that it can no longer fire, the results are
  published and the poll is out of the store. (The condition on the store is not kept by
  every order in which the handlers run: after the close that runs twice a new poll of
  the guild may be in no map of the store, and the click that completes it clears its
  timer while \<^verbatim>\<open>endPoll\<close> returns at its guard, \<open>stale_removal_orphans_poll\<close>.)
\<close>

theorem full_participation_closes:
  assumes found: "map_of (mapAt w (c_serverPolls c)) (c_pollId c) = Some d"
      and store: "map_of (activePolls w) (c_guildId c) = Some (c_serverPolls c)"
      and enforced: "eligibleVoters d \<noteq> []"
      and voter: "userId b \<in> set (eligibleVoters d)"
      and full: "length (AList.update (userId b) (optionIndex b) (votes d)) = length (eligibleVoters d)"
      and opts: "optionCount d"
      and ledger: "ledgerInRange d"
      and index: "validIndex (length (options d)) (optionIndex b)"
      and args: "length (options d) \<le> maxArguments w"
  shows "\<exists>w' r. collect c b w = Inr w'
           \<and> compileResults (maxArguments w)
                (d\<lparr>votes := AList.update (userId b) (optionIndex b) (votes d)\<rparr>) = Inr r
           \<and> map_of (timers w') (timeout d) = None
           \<and> timerFires (timeout d) w' = w'
           \<and> \<not> inStore (c_guildId c) (c_pollId c) w'
           \<and> sent w' = sent w @
                [Reply_Recorded (userId b) (label (c_options c) (optionIndex b)),
                 MessageEdit_Ended (c_message c),
                 MessageReply_Results (c_message c) r]"
proof -
  let ?d = "d\<lparr>votes := AList.update (userId b) (optionIndex b) (votes d)\<rparr>"
  have lr: "ledgerInRange ?d" by (rule ledgerInRange_update[OF ledger index])
  from opts have o: "2 \<le> length (options ?d)" "length (options ?d) \<le> 5"
    by (simp_all add: optionCount_def)
  from args have a: "length (options ?d) \<le> maxArguments w" by simp
  note res = compileResults_tally[OF o lr a]
  from collect_closes[OF found store enforced voter full res]
  obtain w' where w': "collect c b w = Inr w'" "map_of (timers w') (timeout d) = None"
    "timerFires (timeout d) w' = w'"
    "endPoll_begin (c_message c) (c_pollId c) (c_guildId c) w' = Inr None"
    "sent w' = sent w @
                [Reply_Recorded (userId b) (label (c_options c) (optionIndex b)),
                 MessageEdit_Ended (c_message c),
                 MessageReply_Results (c_message c)
                   \<lparr> counts = zip (options ?d)
                       (map (\<lambda>c. Some (Num (int c))) (spec_counts (options ?d) (votes ?d))),
                     outcome = verdict_of (spec_report (options ?d) (spec_counts (options ?d) (votes ?d))),
                     participation =
                       (if length (eligibleVoters ?d) > 0
                        then Some (length (votes ?d), length (eligibleVoters ?d)) else None) \<rparr>]"
    by blast
  from w'(4) have "\<not> inStore (c_guildId c) (c_pollId c) w'"
    by (simp add: inStore_endPoll_begin[of _ _ _ "c_message c"])
  with w' res show ?thesis by blast
qed

theorem full_participation_closes_witness:
  "map_of (mapAt (m1_world [(''alice'', Num 0)] [Reply_Recorded ''alice'' (Some ''A'')])
                (c_serverPolls m1_collector)) (c_pollId m1_collector)
       = Some (m1_poll [(''alice'', Num 0)])
   \<and> map_of (activePolls (m1_world [(''alice'', Num 0)] [Reply_Recorded ''alice'' (Some ''A'')]))
         (c_guildId m1_collector) = Some (c_serverPolls m1_collector)
   \<and> eligibleVoters (m1_poll [(''alice'', Num 0)]) \<noteq> []
   \<and> ''bob'' \<in> set (eligibleVoters (m1_poll [(''alice'', Num 0)]))
   \<and> length (AList.update ''bob'' (Num 1) (votes (m1_poll [(''alice'', Num 0)])))
       = length (eligibleVoters (m1_poll [(''alice'', Num 0)]))
   \<and> optionCount (m1_poll [(''alice'', Num 0)])
   \<and> ledgerInRange (m1_poll [(''alice'', Num 0)])
   \<and> validIndex (length (options (m1_poll [(''alice'', Num 0)]))) (Num 1)
   \<and> length (options (m1_poll [(''alice'', Num 0)]))
       \<le> maxArguments (m1_world [(''alice'', Num 0)] [Reply_Recorded ''alice'' (Some ''A'')])
   \<and> (\<exists>w'. collect m1_collector \<lparr>userId = ''bob'', optionIndex = Num 1\<rparr>
               (m1_world [(''alice'', Num 0)] [Reply_Recorded ''alice'' (Some ''A'')]) = Inr w'
         \<and> map_of (timers w') 0 = None
         \<and> timerFires 0 w' = w'
         \<and> \<not> inStore ''g'' ''m1'' w'
         \<and> sent w' = sent (m1_world [(''alice'', Num 0)] [Reply_Recorded ''alice'' (Some ''A'')]) @
              [Reply_Recorded ''bob'' (Some ''B''), MessageEdit_Ended ''m1'',
               MessageReply_Results ''m1''
                 \<lparr>counts = [(''A'', Some (Num 1)), (''B'', Some (Num 1))],
                  outcome = TieBetween [''A'', ''B''] (Num 1), participation = Some (2, 2)\<rparr>])"
proof -
  let ?w = "m1_world [(''alice'', Num 0)] [Reply_Recorded ''alice'' (Some ''A'')]"
  let ?d = "m1_poll [(''alice'', Num 0)]"
  let ?b = "\<lparr>userId = ''bob'', optionIndex = Num 1\<rparr>"
  have h1: "map_of (mapAt ?w (c_serverPolls m1_collector)) (c_pollId m1_collector) = Some ?d"
    by (simp add: m1_world_def m1_collector_def mapAt_def)
  have h2: "map_of (activePolls ?w) (c_guildId m1_collector) = Some (c_serverPolls m1_collector)"
    by (simp add: m1_world_def m1_collector_def)
  have h3: "eligibleVoters ?d \<noteq> []" by (simp add: m1_poll_def)
  have h4: "userId ?b \<in> set (eligibleVoters ?d)" by (simp add: m1_poll_def)
  have h5: "length (AList.update (userId ?b) (optionIndex ?b) (votes ?d)) = length (eligibleVoters ?d)"
    by (simp add: m1_poll_def)
  have h6: "optionCount ?d" by (simp add: m1_poll_def optionCount_def)
  have h7: "ledgerInRange ?d" by (simp add: m1_poll_def ledgerInRange_def validIndex_def)
  have h8: "validIndex (length (options ?d)) (optionIndex ?b)" by (simp add: m1_poll_def validIndex_def)
  have h9: "length (options ?d) \<le> maxArguments ?w" by (simp add: m1_poll_def m1_world_def)
  have r: "compileResults (maxArguments ?w)
             (?d\<lparr>votes := AList.update (userId ?b) (optionIndex ?b) (votes ?d)\<rparr>)
           = Inr \<lparr>counts = [(''A'', Some (Num 1)), (''B'', Some (Num 1))],
                  outcome = TieBetween [''A'', ''B''] (Num 1), participation = Some (2, 2)\<rparr>"
    by (simp add: m1_world_def m1_poll_def compileResults_def voteCounts_def Math_max_def
        indexed_def cell_def bump_def Let_def)
  from full_participation_closes[OF h1 h2 h3 h4 h5 h6 h7 h8 h9]
  obtain w' r' where w': "collect m1_collector ?b ?w = Inr w'"
      "compileResults (maxArguments ?w)
         (?d\<lparr>votes := AList.update (userId ?b) (optionIndex ?b) (votes ?d)\<rparr>) = Inr r'"
      "map_of (timers w') (timeout ?d) = None"
      "timerFires (timeout ?d) w' = w'"
      "\<not> inStore (c_guildId m1_collector) (c_pollId m1_collector) w'"
      "sent w' = sent ?w @
                [Reply_Recorded (userId ?b) (label (c_options m1_collector) (optionIndex ?b)),
                 MessageEdit_Ended (c_message m1_collector),
                 MessageReply_Results (c_message m1_collector) r']"
    by blast
  from w'(2) r have r': "r' = \<lparr>counts = [(''A'', Some (Num 1)), (''B'', Some (Num 1))],
                  outcome = TieBetween [''A'', ''B''] (Num 1), participation = Some (2, 2)\<rparr>"
    by simp
  have "\<exists>w'. collect m1_collector ?b ?w = Inr w'
         \<and> map_of (timers w') 0 = None
         \<and> timerFires 0 w' = w'
         \<and> \<not> inStore ''g'' ''m1'' w'
         \<and> sent w' = sent ?w @
              [Reply_Recorded ''bob'' (Some ''B''), MessageEdit_Ended ''m1'',
               MessageReply_Results ''m1''
                 \<lparr>counts = [(''A'', Some (Num 1)), (''B'', Some (Num 1))],
                  outcome = TieBetween [''A'', ''B''] (Num 1), participation = Some (2, 2)\<rparr>]"
    using w'(1,3,4,5,6) unfolding r'
    by (intro exI[of _ w']) (simp add: m1_poll_def m1_collector_def label_def)
  with h1 h2 h3 h4 h5 h6 h7 h8 h9 show ?thesis by simp
qed

text \<open>
  C4 as stated fails for a vote whose option index is far out of range. Alice has
  voted; Bob's click carries the index 130000 and completes participation. The handler
  writes the vote, acknowledges it and clears the timer, and \<^verbatim>\<open>endPoll\<close> then throws a
  \<^verbatim>\<open>RangeError\<close> in \<^verbatim>\<open>Math.max(...voteCounts)\<close>, whose array has grown to 130001 elements, on
  an engine that takes 65535 arguments. Nothing is published, and the poll stays in the
  store with its timer gone.
\<close>

theorem oversized_index_blocks_closure:
  "run [Vote poll_cmd, Click ''m1'' \<lparr>userId = ''alice'', optionIndex = Num 0\<rparr>] (init 65535)
     = m1_world [(''alice'', Num 0)] [Reply_Recorded ''alice'' (Some ''A'')]
   \<and> step (Click ''m1'' \<lparr>userId = ''bob'', optionIndex = Num 130000\<rparr>)
        (m1_world [(''alice'', Num 0)] [Reply_Recorded ''alice'' (Some ''A'')])
     = (m1_world [(''alice'', Num 0), (''bob'', Num 130000)]
          [Reply_Recorded ''alice'' (Some ''A''), Reply_Recorded ''bob'' None])
       \<lparr>timers := [], unhandled := [RangeError]\<rparr>
   \<and> inStore ''g'' ''m1''
        (step (Click ''m1'' \<lparr>userId = ''bob'', optionIndex = Num 130000\<rparr>)
           (m1_world [(''alice'', Num 0)] [Reply_Recorded ''alice'' (Some ''A'')]))"
proof -
  have "65535 < length (voteCounts [''A'', ''B''] [(''alice'', Num 0), (''bob'', Num 130000)])"
    by (simp add: voteCounts_def length_bump)
  then have cr: "compileResults 65535
          \<lparr>message = ''m1'', timeout = 0, options = [''A'', ''B''],
            votes = [(''alice'', Num 0), (''bob'', Num 130000)],
            eligibleVoters = [''alice'', ''bob'']\<rparr> = Inl RangeError"
    by (intro compileResults_RangeError) simp
  have s: "step (Click ''m1'' \<lparr>userId = ''bob'', optionIndex = Num 130000\<rparr>)
        (m1_world [(''alice'', Num 0)] [Reply_Recorded ''alice'' (Some ''A'')])
     = (m1_world [(''alice'', Num 0), (''bob'', Num 130000)]
          [Reply_Recorded ''alice'' (Some ''A''), Reply_Recorded ''bob'' None])
       \<lparr>timers := [], unhandled := [RangeError]\<rparr>"
    by (simp add: engine_defs m1_world_def m1_poll_def m1_collector_def cr)
  have i: "inStore ''g'' ''m1''
        (step (Click ''m1'' \<lparr>userId = ''bob'', optionIndex = Num 130000\<rparr>)
           (m1_world [(''alice'', Num 0)] [Reply_Recorded ''alice'' (Some ''A'')]))"
    unfolding s by (simp add: inStore_def m1_world_def mapAt_def)
  show ?thesis by (intro conjI run_voted s i)
qed

subsection \<open>Option indices in the ledger\<close>

text \<open>
  C5, as amended. In every state reached by a run whose clicks are clicks on rendered
  buttons, every option index in every ledger is an integer from 0 to below the number of
  options. The handler itself does not check the index it is given
  (\<open>collect_write_accepts\<close>). The write of a vote is one part of the handler, and the
  same holds in whatever order the parts of the handlers run
  (\<open>ledgerInRange_interleaved\<close>).
\<close>

theorem rendered_votes_in_range:
  "rendered es (init limit) \<Longrightarrow> allPolls ledgerInRange (run es (init limit))"
  by (rule ledgerInRange_run)

theorem rendered_votes_in_range_witness:
  "rendered [Vote poll_cmd, Click ''m1'' \<lparr>userId = ''alice'', optionIndex = Num 0\<rparr>] (init 65535)
   \<and> allPolls ledgerInRange (m1_world [(''alice'', Num 0)] [Reply_Recorded ''alice'' (Some ''A'')])"
proof -
  have h: "rendered [Vote poll_cmd, Click ''m1'' \<lparr>userId = ''alice'', optionIndex = Num 0\<rparr>] (init 65535)"
    unfolding rendered.simps step.simps run_open[simplified]
    by (simp add: renderedClick_def m1_world_def m1_collector_def m1_poll_def mapAt_def buttons_def)
  from rendered_votes_in_range[OF h] h show ?thesis
    unfolding run_voted by simp
qed

text \<open>
  C5 as stated fails: a click that carries the index 7 on the poll of two options is
  recorded as it is.
\<close>

theorem out_of_range_vote_recorded:
  "run [Vote poll_cmd, Click ''m1'' \<lparr>userId = ''alice'', optionIndex = Num 7\<rparr>] (init 65535)
     = m1_world [(''alice'', Num 7)] [Reply_Recorded ''alice'' None]
   \<and> length (options (m1_poll [(''alice'', Num 7)])) = 2
   \<and> \<not> allPolls ledgerInRange (m1_world [(''alice'', Num 7)] [Reply_Recorded ''alice'' None])"
  by (simp add: engine_defs poll_cmd_def m1_world_def m1_poll_def m1_collector_def description_AB
      allPolls_def ledgerInRange_def validIndex_def)

subsection \<open>The size of the ledger\<close>

text \<open>
  C6. In every state a run reaches, every session whose set of eligible voters is not
  empty has at most as many votes in its ledger as it has eligible voters. The bound is
  kept by each write of a vote, so it holds in whatever order the parts of the handlers
  run (\<open>withinEligible_interleaved\<close>).
\<close>

theorem votes_within_eligible:
  "allPolls withinEligible (run es (init limit))"
  by (rule withinEligible_interleaved[OF interleaved_run[OF interleaved.started]])

theorem votes_within_eligible_witness:
  "allPolls withinEligible (m1_world [(''alice'', Num 0)] [Reply_Recorded ''alice'' (Some ''A'')])
   \<and> eligibleVoters (m1_poll [(''alice'', Num 0)]) \<noteq> []
   \<and> length (votes (m1_poll [(''alice'', Num 0)])) = 1
   \<and> length (eligibleVoters (m1_poll [(''alice'', Num 0)])) = 2"
  using votes_within_eligible[of "[Vote poll_cmd, Click ''m1'' \<lparr>userId = ''alice'', optionIndex = Num 0\<rparr>]" 65535]
  unfolding run_voted by (simp add: m1_poll_def)

subsection \<open>Voters who are not eligible\<close>

text \<open>
  C7. When the session's set of eligible voters is not empty and the voter is not in it,
  the handler answers that the voter has no permission to vote and changes nothing
  else: the heap, and with it every ledger, is as it was.
\<close>

theorem ineligible_vote_rejected:
  assumes "map_of (mapAt w (c_serverPolls c)) (c_pollId c) = Some d"
      and "eligibleVoters d \<noteq> []"
      and "userId b \<notin> set (eligibleVoters d)"
  shows "collect c b w = Inr (send (Reply_NoPermission (userId b)) w)
       \<and> heap (send (Reply_NoPermission (userId b)) w) = heap w"
  using assms by (simp add: collect_def collect_write_def send_def)

theorem ineligible_vote_rejected_witness:
  "map_of (mapAt (m1_world [] []) (c_serverPolls m1_collector)) (c_pollId m1_collector) = Some (m1_poll [])
   \<and> eligibleVoters (m1_poll []) \<noteq> []
   \<and> ''carol'' \<notin> set (eligibleVoters (m1_poll []))
   \<and> collect m1_collector \<lparr>userId = ''carol'', optionIndex = Num 1\<rparr> (m1_world [] [])
       = Inr (m1_world [] [Reply_NoPermission ''carol''])"
proof -
  have h1: "map_of (mapAt (m1_world [] []) (c_serverPolls m1_collector)) (c_pollId m1_collector) = Some (m1_poll [])"
    by (simp add: m1_world_def m1_collector_def mapAt_def)
  have h2: "eligibleVoters (m1_poll []) \<noteq> []" by (simp add: m1_poll_def)
  have h3: "userId \<lparr>userId = ''carol'', optionIndex = Num 1\<rparr> \<notin> set (eligibleVoters (m1_poll []))"
    by (simp add: m1_poll_def)
  from ineligible_vote_rejected[OF h1 h2 h3] h1 h2 h3 show ?thesis
    by (simp add: send_def m1_world_def)
qed

subsection \<open>Changing a vote\<close>

text \<open>
  C8. In every state a run reaches, when a voter who has a vote in the ledger of a
  session votes again, the handler writes the new option index over the old one: the
  ledger maps the voter to the new index, every other voter's entry is as before, the
  ledger has the size it had, and no voter has two entries.
\<close>

theorem vote_change_replaces:
  assumes found: "map_of (mapAt (run es (init limit)) (c_serverPolls c)) (c_pollId c) = Some d"
      and voted: "map_of (votes d) (userId b) = Some old"
  shows "\<exists>d' w1. collect_write c b (run es (init limit)) = Inr (Some d', w1)
           \<and> map_of (mapAt w1 (c_serverPolls c)) (c_pollId c) = Some d'
           \<and> map_of (votes d') (userId b) = Some (optionIndex b)
           \<and> (\<forall>u. u \<noteq> userId b \<longrightarrow> map_of (votes d') u = map_of (votes d) u)
           \<and> length (votes d') = length (votes d)
           \<and> distinct (map fst (votes d'))"
proof -
  let ?w = "run es (init limit)"
  let ?vs = "AList.update (userId b) (optionIndex b) (votes d)"
  let ?d = "d\<lparr>votes := ?vs\<rparr>"
  have one: "oneVoteEach d"
    by (rule allPolls_found[OF oneVoteEach_run found])
  from voted have key: "userId b \<in> set (map fst (votes d))"
    by (auto dest!: map_of_SomeD intro: rev_image_eqI)
  with one have ok: "eligibleVoters d = [] \<or> userId b \<in> set (eligibleVoters d)"
    by (auto simp: oneVoteEach_def)
  note cw = collect_write_accepts[OF found ok]
  have stored: "map_of (mapAt (send (Reply_Recorded (userId b) (label (c_options c) (optionIndex b)))
                  (putMap (c_serverPolls c) (AList.update (c_pollId c) ?d (mapAt ?w (c_serverPolls c))) ?w))
                  (c_serverPolls c)) (c_pollId c) = Some ?d"
    by (simp add: update_conv')
  have new: "map_of ?vs (userId b) = Some (optionIndex b)"
    by (simp add: update_conv')
  have others: "\<forall>u. u \<noteq> userId b \<longrightarrow> map_of ?vs u = map_of (votes d) u"
    by (simp add: update_conv')
  have "map fst ?vs = map fst (votes d)"
    using key by (simp add: update_keys)
  then have len: "length ?vs = length (votes d)"
    by (metis length_map)
  have dist: "distinct (map fst ?vs)"
    using one by (simp add: oneVoteEach_def distinct_update)
  from cw stored new others len dist show ?thesis by auto
qed

theorem vote_change_replaces_witness:
  "map_of (mapAt (run [Vote poll_cmd, Click ''m1'' \<lparr>userId = ''alice'', optionIndex = Num 0\<rparr>] (init 65535))
       (c_serverPolls m1_collector)) (c_pollId m1_collector) = Some (m1_poll [(''alice'', Num 0)])
   \<and> map_of (votes (m1_poll [(''alice'', Num 0)])) ''alice'' = Some (Num 0)
   \<and> (\<exists>d' w1. collect_write m1_collector \<lparr>userId = ''alice'', optionIndex = Num 1\<rparr>
                  (m1_world [(''alice'', Num 0)] [Reply_Recorded ''alice'' (Some ''A'')]) = Inr (Some d', w1)
         \<and> map_of (votes d') ''alice'' = Some (Num 1)
         \<and> length (votes d') = 1)"
proof -
  let ?es = "[Vote poll_cmd, Click ''m1'' \<lparr>userId = ''alice'', optionIndex = Num 0\<rparr>]"
  let ?b = "\<lparr>userId = ''alice'', optionIndex = Num 1\<rparr>"
  have h1: "map_of (mapAt (run ?es (init 65535)) (c_serverPolls m1_collector)) (c_pollId m1_collector)
              = Some (m1_poll [(''alice'', Num 0)])"
    unfolding run_voted by (simp add: m1_world_def m1_collector_def mapAt_def)
  have h2: "map_of (votes (m1_poll [(''alice'', Num 0)])) (userId ?b) = Some (Num 0)"
    by (simp add: m1_poll_def)
  from vote_change_replaces[OF h1 h2]
  obtain d' w1 where "collect_write m1_collector ?b (run ?es (init 65535)) = Inr (Some d', w1)"
      "map_of (votes d') (userId ?b) = Some (optionIndex ?b)"
      "length (votes d') = length (votes (m1_poll [(''alice'', Num 0)]))"
    by blast
  then have "\<exists>d' w1. collect_write m1_collector ?b
                  (m1_world [(''alice'', Num 0)] [Reply_Recorded ''alice'' (Some ''A'')]) = Inr (Some d', w1)
         \<and> map_of (votes d') ''alice'' = Some (Num 1) \<and> length (votes d') = 1"
    unfolding run_voted by (auto simp: m1_poll_def)
  with h1 h2 show ?thesis by simp
qed

subsection \<open>Starting a session\<close>

text \<open>
  C9, as amended. A \<^verbatim>\<open>vote\<close> command with fewer than two or more than five options is
  answered by the matching error message and changes nothing else: no poll, no timer,
  no collector.
\<close>

theorem bad_option_count_rejected:
  assumes "length (v_options c) < 2 \<or> 5 < length (v_options c)"
  shows "execute c w =
           Inr (w\<lparr>sent := sent w @ [if length (v_options c) < 2 then Reply_TooFewOptions
                                     else Reply_TooManyOptions]\<rparr>)"
  using assms by (auto simp: execute_def execute_begin_def send_def)

theorem bad_option_count_rejected_witness:
  "length (v_options (poll_cmd\<lparr>v_options := [''A'']\<rparr>)) < 2
   \<and> execute (poll_cmd\<lparr>v_options := [''A'']\<rparr>) (init 65535)
       = Inr ((init 65535)\<lparr>sent := [Reply_TooFewOptions]\<rparr>)"
proof -
  have h: "length (v_options (poll_cmd\<lparr>v_options := [''A'']\<rparr>)) < 2
           \<or> 5 < length (v_options (poll_cmd\<lparr>v_options := [''A'']\<rparr>))"
    by simp
  from bad_option_count_rejected[OF h, of "init 65535"] show ?thesis
    by (simp add: init_def)
qed

text \<open>
  C9 as stated fails for the duration, which the command does not check: a command for
  minus five minutes opens the poll and arms its timer with a negative delay.
\<close>

theorem negative_duration_accepted:
  "execute (poll_cmd\<lparr>v_duration := - 5\<rparr>) (init 65535)
     = Inr (m1_world [] []\<lparr>timers := [(0, \<lparr>delay = - 300000, t_message = ''m1'', t_pollId = ''m1'',
                                            t_guildId = ''g''\<rparr>)]\<rparr>)"
  by (simp add: engine_defs poll_cmd_def m1_world_def m1_poll_def m1_collector_def description_AB)

subsection \<open>The last vote is counted\<close>

text \<open>
  C10, as amended. Under the conditions of C4 (a session in the store under its guild,
  with two to five options and a ledger of option indices in range, a click on one of its
  options, nothing else run in between), the vote that completes participation is
  written to the ledger before the handler checks for full participation, and the
  results that the check then publishes are compiled from that ledger: the count
  reported for the option voted for is the number of its entries in the ledger with this
  vote in it, and so at least 1.
\<close>

theorem final_vote_is_counted:
  assumes found: "map_of (mapAt w (c_serverPolls c)) (c_pollId c) = Some d"
      and store: "map_of (activePolls w) (c_guildId c) = Some (c_serverPolls c)"
      and enforced: "eligibleVoters d \<noteq> []"
      and voter: "userId b \<in> set (eligibleVoters d)"
      and full: "length (AList.update (userId b) (optionIndex b) (votes d)) = length (eligibleVoters d)"
      and opts: "optionCount d"
      and ledger: "ledgerInRange d"
      and index: "validIndex (length (options d)) (optionIndex b)"
      and args: "length (options d) \<le> maxArguments w"
  shows "\<exists>d' w1 w' r k.
           collect_write c b w = Inr (Some d', w1)
           \<and> map_of (mapAt w1 (c_serverPolls c)) (c_pollId c) = Some d'
           \<and> (userId b, optionIndex b) \<in> set (votes d')
           \<and> collect c b w = Inr w'
           \<and> sent w' = sent w1 @ [MessageEdit_Ended (c_message c),
                                   MessageReply_Results (c_message c) r]
           \<and> compileResults (maxArguments w) d' = Inr r
           \<and> optionIndex b = Num (int k) \<and> k < length (options d)
           \<and> counts r ! k
               = (options d ! k,
                  Some (Num (int (length (filter (\<lambda>v. snd v = optionIndex b) (votes d'))))))
           \<and> 0 < length (filter (\<lambda>v. snd v = optionIndex b) (votes d'))"
proof -
  let ?vs = "AList.update (userId b) (optionIndex b) (votes d)"
  let ?d = "d\<lparr>votes := ?vs\<rparr>"
  let ?a = "c_serverPolls c"
  let ?w1 = "send (Reply_Recorded (userId b) (label (c_options c) (optionIndex b)))
               (putMap ?a (AList.update (c_pollId c) ?d (mapAt w ?a)) w)"
  let ?r = "\<lparr> counts = zip (options ?d)
                 (map (\<lambda>c. Some (Num (int c))) (spec_counts (options ?d) (votes ?d))),
               outcome = verdict_of (spec_report (options ?d) (spec_counts (options ?d) (votes ?d))),
               participation =
                 (if length (eligibleVoters ?d) > 0
                  then Some (length (votes ?d), length (eligibleVoters ?d)) else None) \<rparr>"
  from index obtain z where z: "optionIndex b = Num z" "0 \<le> z" "z < int (length (options d))"
    by (auto simp: validIndex_def split: jsnum.splits)
  define k where "k = nat z"
  from z have k: "optionIndex b = Num (int k)" "k < length (options d)"
    by (simp_all add: k_def)
  have cw: "collect_write c b w = Inr (Some ?d, ?w1)"
    by (rule collect_write_accepts[OF found]) (simp add: voter)
  have stored: "map_of (mapAt ?w1 ?a) (c_pollId c) = Some ?d"
    by (simp add: update_conv')
  have "map_of ?vs (userId b) = Some (optionIndex b)"
    by (simp add: update_conv')
  then have mem: "(userId b, optionIndex b) \<in> set (votes ?d)"
    by (auto dest: map_of_SomeD)
  have lr: "ledgerInRange ?d" by (rule ledgerInRange_update[OF ledger index])
  from opts have o: "2 \<le> length (options ?d)" "length (options ?d) \<le> 5"
    by (simp_all add: optionCount_def)
  from args have a: "length (options ?d) \<le> maxArguments w" by simp
  have res: "compileResults (maxArguments w) ?d = Inr ?r"
    by (rule compileResults_tally[OF o lr a])
  from collect_closes[OF found store enforced voter full res]
  obtain w' where w': "collect c b w = Inr w'"
    "sent w' = sent w @
                [Reply_Recorded (userId b) (label (c_options c) (optionIndex b)),
                 MessageEdit_Ended (c_message c),
                 MessageReply_Results (c_message c) ?r]"
    by blast
  have s: "sent w' = sent ?w1 @ [MessageEdit_Ended (c_message c),
                                 MessageReply_Results (c_message c) ?r]"
    unfolding w'(2) by (simp add: send_def putMap_def)
  have n: "counts ?r ! k
        = (options d ! k, Some (Num (int (length (filter (\<lambda>v. snd v = optionIndex b) (votes ?d))))))"
    using k(2) by (simp add: spec_counts_nth spec_counts_def k(1))
  have pos: "0 < length (filter (\<lambda>v. snd v = optionIndex b) (votes ?d))"
    using mem by (force simp: filter_empty_conv)
  from cw stored mem w'(1) s res k n pos show ?thesis by blast
qed

theorem final_vote_is_counted_witness:
  "map_of (mapAt (m1_world [(''alice'', Num 0)] [Reply_Recorded ''alice'' (Some ''A'')])
                (c_serverPolls m1_collector)) (c_pollId m1_collector)
       = Some (m1_poll [(''alice'', Num 0)])
   \<and> map_of (activePolls (m1_world [(''alice'', Num 0)] [Reply_Recorded ''alice'' (Some ''A'')]))
         (c_guildId m1_collector) = Some (c_serverPolls m1_collector)
   \<and> eligibleVoters (m1_poll [(''alice'', Num 0)]) \<noteq> []
   \<and> ''bob'' \<in> set (eligibleVoters (m1_poll [(''alice'', Num 0)]))
   \<and> length (AList.update ''bob'' (Num 1) (votes (m1_poll [(''alice'', Num 0)])))
       = length (eligibleVoters (m1_poll [(''alice'', Num 0)]))
   \<and> optionCount (m1_poll [(''alice'', Num 0)])
   \<and> ledgerInRange (m1_poll [(''alice'', Num 0)])
   \<and> validIndex (length (options (m1_poll [(''alice'', Num 0)]))) (Num 1)
   \<and> length (options (m1_poll [(''alice'', Num 0)]))
       \<le> maxArguments (m1_world [(''alice'', Num 0)] [Reply_Recorded ''alice'' (Some ''A'')])
   \<and> (\<exists>w1 w' r.
         collect_write m1_collector \<lparr>userId = ''bob'', optionIndex = Num 1\<rparr>
               (m1_world [(''alice'', Num 0)] [Reply_Recorded ''alice'' (Some ''A'')])
             = Inr (Some (m1_poll [(''alice'', Num 0), (''bob'', Num 1)]), w1)
         \<and> collect m1_collector \<lparr>userId = ''bob'', optionIndex = Num 1\<rparr>
               (m1_world [(''alice'', Num 0)] [Reply_Recorded ''alice'' (Some ''A'')]) = Inr w'
         \<and> sent w' = sent w1 @ [MessageEdit_Ended ''m1'', MessageReply_Results ''m1'' r]
         \<and> counts r ! 1 = (''B'', Some (Num 1)))"
proof -
  let ?w = "m1_world [(''alice'', Num 0)] [Reply_Recorded ''alice'' (Some ''A'')]"
  let ?d = "m1_poll [(''alice'', Num 0)]"
  let ?d' = "m1_poll [(''alice'', Num 0), (''bob'', Num 1)]"
  let ?b = "\<lparr>userId = ''bob'', optionIndex = Num 1\<rparr>"
  have h1: "map_of (mapAt ?w (c_serverPolls m1_collector)) (c_pollId m1_collector) = Some ?d"
    by (simp add: m1_world_def m1_collector_def mapAt_def)
  have h2: "map_of (activePolls ?w) (c_guildId m1_collector) = Some (c_serverPolls m1_collector)"
    by (simp add: m1_world_def m1_collector_def)
  have h3: "eligibleVoters ?d \<noteq> []" by (simp add: m1_poll_def)
  have h4: "userId ?b \<in> set (eligibleVoters ?d)" by (simp add: m1_poll_def)
  have h5: "length (AList.update (userId ?b) (optionIndex ?b) (votes ?d)) = length (eligibleVoters ?d)"
    by (simp add: m1_poll_def)
  have h6: "optionCount ?d" by (simp add: m1_poll_def optionCount_def)
  have h7: "ledgerInRange ?d" by (simp add: m1_poll_def ledgerInRange_def validIndex_def)
  have h8: "validIndex (length (options ?d)) (optionIndex ?b)" by (simp add: m1_poll_def validIndex_def)
  have h9: "length (options ?d) \<le> maxArguments ?w" by (simp add: m1_poll_def m1_world_def)
  from final_vote_is_counted[OF h1 h2 h3 h4 h5 h6 h7 h8 h9]
  obtain d' w1 w' r k where cw: "collect_write m1_collector ?b ?w = Inr (Some d', w1)"
    and c: "collect m1_collector ?b ?w = Inr w'"
    and s: "sent w' = sent w1 @ [MessageEdit_Ended (c_message m1_collector),
                                 MessageReply_Results (c_message m1_collector) r]"
    and k: "optionIndex ?b = Num (int k)"
    and n: "counts r ! k
             = (options ?d ! k, Some (Num (int (length (filter (\<lambda>v. snd v = optionIndex ?b) (votes d'))))))"
    by blast
  have "\<exists>w1'. collect_write m1_collector ?b ?w = Inr (Some ?d', w1')"
    by (simp add: collect_write_def m1_world_def m1_collector_def m1_poll_def mapAt_def Let_def)
  with cw have d': "d' = ?d'" by auto
  from k have k1: "k = 1" by simp
  have n': "counts r ! 1 = (''B'', Some (Num 1))"
    using n unfolding d' k1 by (simp add: m1_poll_def)
  have s': "sent w' = sent w1 @ [MessageEdit_Ended ''m1'', MessageReply_Results ''m1'' r]"
    using s by (simp add: m1_collector_def)
  from cw c s' n' have "\<exists>w1 w' r. collect_write m1_collector ?b ?w = Inr (Some ?d', w1)
         \<and> collect m1_collector ?b ?w = Inr w'
         \<and> sent w' = sent w1 @ [MessageEdit_Ended ''m1'', MessageReply_Results ''m1'' r]
         \<and> counts r ! 1 = (''B'', Some (Num 1))"
    unfolding d' by blast
  with h1 h2 h3 h4 h5 h6 h7 h8 h9 show ?thesis by simp
qed

text \<open>
  C10 as stated fails for a vote whose option index is out of range. Alice has voted
  for A; Bob's click carries the index 2, which names none of the two options, and
  completes participation. The vote is written and the results are published with it
  in the ledger, and it is counted for no option: the counts are 1 for A and 0 for B,
  and the results say that no votes were cast.
\<close>

theorem final_vote_out_of_range_uncounted:
  "collect_write m1_collector \<lparr>userId = ''bob'', optionIndex = Num 2\<rparr>
       (m1_world [(''alice'', Num 0)] [Reply_Recorded ''alice'' (Some ''A'')])
     = Inr (Some (m1_poll [(''alice'', Num 0), (''bob'', Num 2)]),
            m1_world [(''alice'', Num 0), (''bob'', Num 2)]
              [Reply_Recorded ''alice'' (Some ''A''), Reply_Recorded ''bob'' None])
   \<and> sent (step (Click ''m1'' \<lparr>userId = ''bob'', optionIndex = Num 2\<rparr>)
             (m1_world [(''alice'', Num 0)] [Reply_Recorded ''alice'' (Some ''A'')]))
     = sent (m1_world [(''alice'', Num 0)] [Reply_Recorded ''alice'' (Some ''A'')]) @
         [Reply_Recorded ''bob'' None, MessageEdit_Ended ''m1'',
          MessageReply_Results ''m1''
            \<lparr>counts = [(''A'', Some (Num 1)), (''B'', Some (Num 0))], outcome = NoVotesCast,
             participation = Some (2, 2)\<rparr>]"
  by (simp add: engine_defs m1_world_def m1_poll_def m1_collector_def
      compileResults_def voteCounts_def Math_max_def indexed_def cell_def bump_def)

end
